theory Spec2Isabelle
  imports Complex_Main
begin

section \<open>Numbers, vectors and typed arrays\<close>

text \<open>
  The two scripts, \<^verbatim>\<open>src/main.js\<close> (the deep-sea scene) and
  \<^verbatim>\<open>src/unnamed/part_000\<close> (the dream scene), compute with JavaScript numbers.
  They are modelled as real numbers.  Where a bound on a stored value depends on it (the
  vent buffer), the rounding of the sum to a double and of the stored value to a
  \<open>Float32Array\<close> element is modelled (\<open>to_double\<close>, \<open>fround\<close> below).  Elsewhere the
  operations are the exact ones: the precision of \<open>Math.sin\<close> and \<open>Math.cos\<close> is left to the
  implementation by the language, so the swarm is computed in exact arithmetic.
  \<open>NaN\<close>, infinities and overflow are outside the model.  A typed array is a list of fixed
  length.
\<close>

record vec3 =
  v_x :: real
  v_y :: real
  v_z :: real

text \<open>
  The remainder operator \<^verbatim>\<open>a % b\<close> of JavaScript truncates the quotient towards zero, so
  the result has the sign of the dividend.  The scripts only divide by the constant 20.
\<close>

definition trunc :: "real \<Rightarrow> int" where
  "trunc q = (if 0 \<le> q then \<lfloor>q\<rfloor> else \<lceil>q\<rceil>)"

definition js_rem :: "real \<Rightarrow> real \<Rightarrow> real" where
  "js_rem a b = a - b * of_int (trunc (a / b))"

text \<open>
  Binary floating point, rounding to nearest with ties to even: a value other than 0
  lies in the binade \<open>2 ^ e \<le> |x| < 2 ^ (e + 1)\<close> (\<open>e\<close> not below \<open>emin\<close>, where the
  subnormal numbers begin) and is rounded to a multiple of \<open>2 ^ (e - (p - 1))\<close> for a
  significand of \<open>p\<close> bits.  \<open>fround\<close> is the conversion of a store into a
  \<open>Float32Array\<close> (\<^verbatim>\<open>Math.fround\<close>), \<open>to_double\<close> the rounding of an arithmetic result.
\<close>

definition binade :: "real \<Rightarrow> int" where
  "binade x = \<lfloor>log 2 \<bar>x\<bar>\<rfloor>"

definition round_half_even :: "real \<Rightarrow> int" where
  "round_half_even q =
     (let n = \<lfloor>q\<rfloor> in
      if q - of_int n < 1 / 2 then n
      else if 1 / 2 < q - of_int n then n + 1
      else if even n then n else n + 1)"

definition round_float :: "int \<Rightarrow> int \<Rightarrow> real \<Rightarrow> real" where
  "round_float p emin x =
     (if x = 0 then 0
      else (let e = max (binade x) emin;
                ulp = 2 powi (e - (p - 1))
            in of_int (round_half_even (x / ulp)) * ulp))"

definition fround :: "real \<Rightarrow> real" where
  "fround x = round_float 24 (- 126) x"

definition to_double :: "real \<Rightarrow> real" where
  "to_double x = round_float 53 (- 1022) x"

text \<open>
  \<^verbatim>\<open>array.forEach((val, i) => ...)\<close> on a typed array: the length is read once, the
  indices are visited in increasing order, and the callback receives the element as it is
  at the moment of the visit.  The callbacks of the scripts write into the array they
  iterate over, so the callback takes the array and returns it updated.
\<close>

definition forEach :: "(real \<Rightarrow> nat \<Rightarrow> real list \<Rightarrow> real list) \<Rightarrow> real list \<Rightarrow> real list" where
  "forEach cb arr = fold (\<lambda>i a. cb (a ! i) i a) [0..<length arr] arr"

section \<open>Particle fields\<close>

subsection \<open>The code vents (main.js, lines 241-248)\<close>

text \<open>
  \<^verbatim>\<open>
  codeVents.geometry.attributes.position.array.forEach((val, i) => {
      if (i % 3 === 1) { // y-axis
          const newY = (val + deltaTime * 2) % 20;
          codeVents.geometry.attributes.position.array[i] = newY;
      }
  });
  \<close>
  Doubling \<open>deltaTime\<close> and the remainder are exact in double arithmetic; the sum is
  rounded to a double, and the assignment to the array element rounds to a float32.
\<close>

definition vent_callback :: "real \<Rightarrow> real \<Rightarrow> nat \<Rightarrow> real list \<Rightarrow> real list" where
  "vent_callback deltaTime val i arr =
     (if i mod 3 = 1 then (let newY = js_rem (to_double (val + deltaTime * 2)) 20 in arr[i := fround newY])
      else arr)"

definition vent_update :: "real \<Rightarrow> real list \<Rightarrow> real list" where
  "vent_update deltaTime arr = forEach (vent_callback deltaTime) arr"

subsection \<open>The swarm (main.js, lines 250-257)\<close>

text \<open>
  \<^verbatim>\<open>
  swarm.geometry.attributes.position.array.forEach((val, i) => {
      const axis = i % 3;
      const basePos = swarmPosArray[i]; // Original position
      if(axis === 0) swarm.geometry.attributes.position.array[i] = basePos + Math.sin(elapsedTime + basePos) * 2;
      if(axis === 1) swarm.geometry.attributes.position.array[i] = basePos + Math.cos(elapsedTime + basePos) * 2;
  });
  \<close>
  \<^verbatim>\<open>new THREE.Float32BufferAttribute(swarmPosArray, 3)\<close> allocates a fresh typed array
  with the contents of its argument, so the buffer that is iterated and written (\<open>arr\<close>)
  and \<open>swarmPosArray\<close> are two arrays of the same length; the second is only read.
\<close>

definition swarm_callback :: "real \<Rightarrow> real list \<Rightarrow> real \<Rightarrow> nat \<Rightarrow> real list \<Rightarrow> real list" where
  "swarm_callback elapsedTime swarmPosArray val i arr =
     (let axis = i mod 3;
          basePos = swarmPosArray ! i;
          arr1 = (if axis = 0 then arr[i := basePos + sin (elapsedTime + basePos) * 2] else arr);
          arr2 = (if axis = 1 then arr1[i := basePos + cos (elapsedTime + basePos) * 2] else arr1)
      in arr2)"

definition swarm_update :: "real \<Rightarrow> real list \<Rightarrow> real list \<Rightarrow> real list" where
  "swarm_update elapsedTime swarmPosArray arr = forEach (swarm_callback elapsedTime swarmPosArray) arr"

subsection \<open>The river (part_000, lines 242-243)\<close>

text \<open>
  \<^verbatim>\<open>particleMesh.rotation.y = elapsedTime * 0.05;\<close>
  The dream scene never touches the position buffer of its particle field after
  creation; only the rotation of the whole object is set.
\<close>

record river =
  posArray :: "real list"
  rotation_y :: real

definition river_update :: "real \<Rightarrow> river \<Rightarrow> river" where
  "river_update elapsedTime r = r\<lparr>rotation_y := elapsedTime * 0.05\<rparr>"

section \<open>The tween library\<close>

text \<open>
  Modelled from the spec: the tween library (\<^verbatim>\<open>gsap\<close>) is imported, not under
  \<^verbatim>\<open>src/\<close>.  Spec 5: an eased transition is a pure function of the time since the
  transition started; triggering it again overwrites start time and target; when the
  duration is reached the interpolation clamps at its end value.  Spec 6:
  \<^verbatim>\<open>animate(target, property, finalValue, duration, easingCurve)\<close>.  The easing curves
  themselves belong to the library and are a parameter \<open>curve\<close> of the model.
\<close>

datatype ease = Power3InOut | DefaultEase

record 'a tween =
  tw_from :: 'a
  tw_to :: 'a
  tw_start :: real
  tw_duration :: real
  tw_ease :: ease

definition lerp :: "real \<Rightarrow> real \<Rightarrow> real \<Rightarrow> real" where
  "lerp a b r = a + (b - a) * r"

definition lerp3 :: "vec3 \<Rightarrow> vec3 \<Rightarrow> real \<Rightarrow> vec3" where
  "lerp3 a b r = \<lparr>v_x = lerp (v_x a) (v_x b) r, v_y = lerp (v_y a) (v_y b) r, v_z = lerp (v_z a) (v_z b) r\<rparr>"

definition tween_at :: "(ease \<Rightarrow> real \<Rightarrow> real) \<Rightarrow> real tween \<Rightarrow> real \<Rightarrow> real" where
  "tween_at curve tw time =
     (if tw_start tw + tw_duration tw \<le> time then tw_to tw
      else if time \<le> tw_start tw then tw_from tw
      else lerp (tw_from tw) (tw_to tw) (curve (tw_ease tw) ((time - tw_start tw) / tw_duration tw)))"

definition tween_at3 :: "(ease \<Rightarrow> real \<Rightarrow> real) \<Rightarrow> vec3 tween \<Rightarrow> real \<Rightarrow> vec3" where
  "tween_at3 curve tw time =
     (if tw_start tw + tw_duration tw \<le> time then tw_to tw
      else if time \<le> tw_start tw then tw_from tw
      else lerp3 (tw_from tw) (tw_to tw) (curve (tw_ease tw) ((time - tw_start tw) / tw_duration tw)))"

text \<open>A property that has never been animated rests at its value.\<close>

definition still :: "'a \<Rightarrow> 'a tween" where
  "still v = \<lparr>tw_from = v, tw_to = v, tw_start = 0, tw_duration = 0, tw_ease = DefaultEase\<rparr>"

text \<open>\<^verbatim>\<open>gsap.to(target, {property: final, duration: d, ease: e})\<close> called at time \<open>now\<close>.\<close>

definition gsap_to :: "(ease \<Rightarrow> real \<Rightarrow> real) \<Rightarrow> real \<Rightarrow> real tween \<Rightarrow> real \<Rightarrow> real \<Rightarrow> ease \<Rightarrow> real tween" where
  "gsap_to curve now current final d e =
     \<lparr>tw_from = tween_at curve current now, tw_to = final, tw_start = now, tw_duration = d, tw_ease = e\<rparr>"

definition gsap_to3 :: "(ease \<Rightarrow> real \<Rightarrow> real) \<Rightarrow> real \<Rightarrow> vec3 tween \<Rightarrow> vec3 \<Rightarrow> real \<Rightarrow> ease \<Rightarrow> vec3 tween" where
  "gsap_to3 curve now current final d e =
     \<lparr>tw_from = tween_at3 curve current now, tw_to = final, tw_start = now, tw_duration = d, tw_ease = e\<rparr>"

text \<open>
  The curves of the library that the scripts name: \<^verbatim>\<open>'power3.inOut'\<close> in the click
  handlers, and the library's default \<^verbatim>\<open>power1.out\<close> where no ease is given (the hover
  tween).  They instantiate the parameter \<open>curve\<close> in the examples.
\<close>

definition gsap_curve :: "ease \<Rightarrow> real \<Rightarrow> real" where
  "gsap_curve e p =
     (case e of
        Power3InOut \<Rightarrow> (if p < 1 / 2 then 8 * p ^ 4 else 1 - (2 - 2 * p) ^ 4 / 2)
      | DefaultEase \<Rightarrow> 1 - (1 - p) ^ 2)"

section \<open>The ray caster\<close>

text \<open>
  Modelled from the spec: \<^verbatim>\<open>raycaster.intersectObjects\<close> belongs to the rendering
  library, not to \<^verbatim>\<open>src/\<close>.  Spec 4.4: the ray is tested against every object of the
  interactive subset; the nearest intersection along the ray comes first; ties are broken
  by registry insertion order.  The geometry is the parameter \<open>hits\<close>: the ray
  parameters at which the current pointer ray meets each object.  Objects are handles
  (natural numbers), so \<^verbatim>\<open>includes\<close> and \<^verbatim>\<open>===\<close> on objects compare handles.
\<close>

record intersection =
  distance :: real
  object :: nat

definition intersectObjects :: "(nat \<Rightarrow> real list) \<Rightarrow> nat list \<Rightarrow> intersection list" where
  "intersectObjects hits objs =
     sort_key distance (concat (map (\<lambda>obj. map (\<lambda>d. \<lparr>distance = d, object = obj\<rparr>) (hits obj)) objs))"

section \<open>Scene registry and click handler\<close>

record focus_data =
  fp_position :: vec3
  title :: string
  description :: string

text \<open>
  The part of the state both scripts share.  \<open>obj_name\<close> is \<^verbatim>\<open>object.name\<close>;
  \<open>focusPoints\<close> holds the entries of the object literal of that name (its own
  properties); \<open>controls_target\<close> is \<^verbatim>\<open>controls.target\<close>, a value that
  a tween drives; an info slot is \<open>None\<close> when the page has no such element, so that
  \<^verbatim>\<open>document.getElementById(...)\<close> is \<^verbatim>\<open>null\<close>.
\<close>

record ui =
  interactiveObjects :: "nat list"
  obj_name :: "nat \<Rightarrow> string"
  focusPoints :: "string \<rightharpoonup> focus_data"
  controls_target :: "vec3 tween"
  info_title :: "string option"
  info_description :: "string option"

text \<open>
  \<^verbatim>\<open>focusPoints[name]\<close> is a property lookup on an object literal: it finds an entry of
  the table, or else a member that every object literal inherits, or else nothing.  The
  inherited members are functions (and, for \<^verbatim>\<open>__proto__\<close>, the prototype object): they
  are truthy and have no \<^verbatim>\<open>position\<close>, \<^verbatim>\<open>title\<close> or \<^verbatim>\<open>description\<close>.
\<close>

datatype js_value = Undefined | Entry focus_data | Inherited

definition object_prototype_names :: "string list" where
  "object_prototype_names =
     [''constructor'', ''__defineGetter__'', ''__defineSetter__'', ''hasOwnProperty'',
      ''__lookupGetter__'', ''__lookupSetter__'', ''isPrototypeOf'', ''propertyIsEnumerable'',
      ''toString'', ''valueOf'', ''__proto__'', ''toLocaleString'']"

definition lookup :: "(string \<rightharpoonup> focus_data) \<Rightarrow> string \<Rightarrow> js_value" where
  "lookup table n =
     (case table n of
        Some fd \<Rightarrow> Entry fd
      | None \<Rightarrow> if n \<in> set object_prototype_names then Inherited else Undefined)"

definition truthy :: "js_value \<Rightarrow> bool" where
  "truthy v = (v \<noteq> Undefined)"

text \<open>\<^verbatim>\<open>focusData.position\<close>, \<^verbatim>\<open>focusData.title\<close>, \<^verbatim>\<open>focusData.description\<close>; \<open>None\<close> is \<^verbatim>\<open>undefined\<close>.\<close>

definition position_of :: "js_value \<Rightarrow> vec3 option" where
  "position_of v = (case v of Entry fd \<Rightarrow> Some (fp_position fd) | _ \<Rightarrow> None)"

definition title_of :: "js_value \<Rightarrow> string option" where
  "title_of v = (case v of Entry fd \<Rightarrow> Some (title fd) | _ \<Rightarrow> None)"

definition description_of :: "js_value \<Rightarrow> string option" where
  "description_of v = (case v of Entry fd \<Rightarrow> Some (description fd) | _ \<Rightarrow> None)"

text \<open>Assigning \<^verbatim>\<open>undefined\<close> to \<^verbatim>\<open>textContent\<close> leaves the element with the empty text.\<close>

definition textContent :: "string option \<Rightarrow> string" where
  "textContent v = (case v of None \<Rightarrow> [] | Some t \<Rightarrow> t)"

text \<open>
  \<^verbatim>\<open>gsap.to(controls.target, { ...position, duration: d, ease: e })\<close>: spreading
  \<^verbatim>\<open>undefined\<close> contributes no property, and a tween without properties moves nothing.
\<close>

definition spread_to :: "(ease \<Rightarrow> real \<Rightarrow> real) \<Rightarrow> real \<Rightarrow> vec3 tween \<Rightarrow> vec3 option \<Rightarrow> real \<Rightarrow> ease \<Rightarrow> vec3 tween" where
  "spread_to curve now current position d e =
     (case position of
        None \<Rightarrow> current
      | Some p \<Rightarrow> gsap_to3 curve now current p d e)"

text \<open>A handler returns normally or stops at an uncaught \<^verbatim>\<open>TypeError\<close>, with the state reached.\<close>

datatype 'a outcome = Done 'a | TypeError 'a

definition write_info :: "js_value \<Rightarrow> 'a ui_scheme \<Rightarrow> 'a ui_scheme outcome" where
  "write_info focusData s =
     (case info_title s of
        None \<Rightarrow> TypeError s
      | Some _ \<Rightarrow>
          (let s1 = s\<lparr>info_title := Some (textContent (title_of focusData))\<rparr> in
           case info_description s1 of
             None \<Rightarrow> TypeError s1
           | Some _ \<Rightarrow> Done (s1\<lparr>info_description := Some (textContent (description_of focusData))\<rparr>)))"

text \<open>
  main.js, lines 210-222:
  \<^verbatim>\<open>
  const intersects = raycaster.intersectObjects(interactiveObjects);
  if (intersects.length > 0) {
      const targetObj = intersects[0].object;
      const focusData = focusPoints[targetObj.name];
      if (focusData) {
          gsap.to(controls.target, { ...focusData.position, duration: 2.5, ease: 'power3.inOut' });
          document.getElementById('info-title').textContent = focusData.title;
          document.getElementById('info-description').textContent = focusData.description;
      }
  }
  \<close>
\<close>

definition click :: "(ease \<Rightarrow> real \<Rightarrow> real) \<Rightarrow> real \<Rightarrow> (nat \<Rightarrow> real list) \<Rightarrow> 'a ui_scheme \<Rightarrow> 'a ui_scheme outcome" where
  "click curve now hits s =
     (let intersects = intersectObjects hits (interactiveObjects s) in
      if length intersects > 0 then
        (let targetObj = object (intersects ! 0);
             focusData = lookup (focusPoints s) (obj_name s targetObj)
         in if truthy focusData then
              write_info focusData
                (s\<lparr>controls_target :=
                     spread_to curve now (controls_target s) (position_of focusData) 2.5 Power3InOut\<rparr>)
            else Done s)
      else Done s)"

section \<open>Shader time uniform\<close>

text \<open>
  \<^verbatim>\<open>material.userData.shader\<close> is unset until the renderer compiles the material's
  program and calls \<^verbatim>\<open>onBeforeCompile\<close>, which creates the uniform with value 0 and
  stores the shader on the material.  Each frame (main.js 234-236, part_000 238-240):
  \<^verbatim>\<open>
  if (jellyfishMaterial.userData.shader) {
      jellyfishMaterial.userData.shader.uniforms.uTime.value = elapsedTime;
  }
  \<close>
\<close>

record shader =
  uTime :: real

definition onBeforeCompile :: "shader option \<Rightarrow> shader option" where
  "onBeforeCompile userData_shader = Some \<lparr>uTime = 0\<rparr>"

definition shader_update :: "real \<Rightarrow> shader option \<Rightarrow> shader option" where
  "shader_update elapsedTime userData_shader =
     (case userData_shader of
        None \<Rightarrow> None
      | Some sh \<Rightarrow> Some (sh\<lparr>uTime := elapsedTime\<rparr>))"

section \<open>The frame loop of the deep-sea scene (main.js)\<close>

text \<open>
  What a frame receives from outside: the clock's two readings, the intersections of
  the pointer ray with each object, and whether the render at the end of the frame
  compiles the program of the shader-bearing material.  Of \<^verbatim>\<open>composer.render()\<close>
  only that compilation is modelled; \<^verbatim>\<open>controls.update()\<close>, the \<^verbatim>\<open>needsUpdate\<close>
  flags and the request for the next frame have no part in the state below.
\<close>

record frame =
  deltaTime :: real
  elapsedTime :: real
  pointer_hits :: "nat \<Rightarrow> real list"
  compiles :: bool

record main_state = ui +
  children :: "nat list"
  causticsOffset :: "real \<times> real"
  jellyfishShader :: "shader option"
  jellyfish_y :: real
  coreLight_y :: real
  coreLight_intensity :: real
  codeVents_array :: "real list"
  swarmPosArray :: "real list"
  swarm_array :: "real list"
  emissiveIntensity :: "nat \<Rightarrow> real tween"

text \<open>
  main.js, lines 264-269:
  \<^verbatim>\<open>
  scene.children.forEach(child => {
      if (child.name === 'photography') {
          const isHovered = intersectedNames.includes(child);
          gsap.to(child.material, { emissiveIntensity: isHovered ? 0.7 : 0, duration: 1 });
      }
  });
  \<close>
\<close>

definition hover_child :: "(ease \<Rightarrow> real \<Rightarrow> real) \<Rightarrow> real \<Rightarrow> nat list \<Rightarrow> nat \<Rightarrow> main_state \<Rightarrow> main_state" where
  "hover_child curve now intersectedNames child s =
     (if obj_name s child = ''photography'' then
        (let isHovered = (child \<in> set intersectedNames) in
         s\<lparr>emissiveIntensity := (emissiveIntensity s)
              (child := gsap_to curve now (emissiveIntensity s child) (if isHovered then 0.7 else 0) 1 DefaultEase)\<rparr>)
      else s)"

definition hover :: "(ease \<Rightarrow> real \<Rightarrow> real) \<Rightarrow> frame \<Rightarrow> main_state \<Rightarrow> main_state" where
  "hover curve f s =
     (let intersects = intersectObjects (pointer_hits f) (interactiveObjects s);
          intersectedNames = map object intersects
      in fold (hover_child curve (elapsedTime f) intersectedNames) (children s) s)"

definition render :: "frame \<Rightarrow> main_state \<Rightarrow> main_state" where
  "render f s = (if compiles f then s\<lparr>jellyfishShader := onBeforeCompile (jellyfishShader s)\<rparr> else s)"

definition animate :: "(ease \<Rightarrow> real \<Rightarrow> real) \<Rightarrow> frame \<Rightarrow> main_state \<Rightarrow> main_state" where
  "animate curve f s0 =
     (let causticsTime = elapsedTime f * 0.1;
          s1 = s0\<lparr>causticsOffset := (causticsTime, causticsTime)\<rparr>;
          s2 = s1\<lparr>jellyfishShader := shader_update (elapsedTime f) (jellyfishShader s1)\<rparr>;
          s3 = s2\<lparr>jellyfish_y := 5 + sin (elapsedTime f * 0.5) * 0.5\<rparr>;
          s4 = s3\<lparr>coreLight_y := jellyfish_y s3\<rparr>;
          s5 = s4\<lparr>coreLight_intensity := (sin (elapsedTime f * 2.0) * 0.5 + 0.5) * 5 + 5\<rparr>;
          s6 = s5\<lparr>codeVents_array := vent_update (deltaTime f) (codeVents_array s5)\<rparr>;
          s7 = s6\<lparr>swarm_array := swarm_update (elapsedTime f) (swarmPosArray s6) (swarm_array s6)\<rparr>;
          s8 = hover curve f s7
      in render f s8)"

text \<open>The frames of a session, in order.\<close>

definition run :: "(ease \<Rightarrow> real \<Rightarrow> real) \<Rightarrow> frame list \<Rightarrow> main_state \<Rightarrow> main_state" where
  "run curve fs s = fold (animate curve) fs s"

section \<open>The frame loop of the dream scene (part_000)\<close>

text \<open>
  The rigid-body engine (\<^verbatim>\<open>cannon-es\<close>) is imported, not under \<^verbatim>\<open>src/\<close>; its two
  operations that the script calls are parameters of the model.  Bodies live in the
  world and are reached through handles; \<open>objectsToUpdate\<close> pairs the handle of a mesh
  with the handle of its body.
\<close>

record quat =
  q_x :: real
  q_y :: real
  q_z :: real
  q_w :: real

record body =
  position :: vec3
  quaternion :: quat
  velocity :: vec3
  angularVelocity :: vec3
  force :: vec3
  torque :: vec3

record engine =
  world_step :: "real \<Rightarrow> real \<Rightarrow> nat \<Rightarrow> (nat \<Rightarrow> body) \<Rightarrow> (nat \<Rightarrow> body)"
  applyForce :: "vec3 \<Rightarrow> vec3 \<Rightarrow> body \<Rightarrow> body"

record transform =
  mesh_position :: vec3
  mesh_quaternion :: quat

text \<open>
  \<open>rng_calls\<close> counts the calls of \<^verbatim>\<open>Math.random()\<close> made so far; the values it
  returns are the parameter \<open>random\<close>, indexed by call.
\<close>

record dream_state = ui +
  bodies :: "nat \<Rightarrow> body"
  meshes :: "nat \<Rightarrow> transform"
  objectsToUpdate :: "(nat \<times> nat) list"
  heartShader :: "shader option"
  particleMesh :: river
  rng_calls :: nat
  bokeh_focus :: "real tween"

text \<open>
  part_000, lines 232-235:
  \<^verbatim>\<open>
  objectsToUpdate.forEach(obj => {
      obj.mesh.position.copy(obj.body.position);
      obj.mesh.quaternion.copy(obj.body.quaternion);
  });
  \<close>
\<close>

definition sync_mesh :: "nat \<times> nat \<Rightarrow> dream_state \<Rightarrow> dream_state" where
  "sync_mesh obj s =
     (let mesh = fst obj; b = bodies s (snd obj) in
      s\<lparr>meshes := (meshes s)(mesh := (meshes s mesh)\<lparr>mesh_position := position b, mesh_quaternion := quaternion b\<rparr>)\<rparr>)"

text \<open>
  part_000, lines 246-252:
  \<^verbatim>\<open>
  objectsToUpdate.forEach(obj => {
      obj.body.applyForce(new CANNON.Vec3(
          (Math.random() - 0.5) * 0.1,
          (Math.random() - 0.5) * 0.1,
          (Math.random() - 0.5) * 0.1
      ), obj.body.position);
  });
  \<close>
\<close>

definition drift_force :: "(nat \<Rightarrow> real) \<Rightarrow> nat \<Rightarrow> vec3" where
  "drift_force random n =
     \<lparr>v_x = (random n - 0.5) * 0.1, v_y = (random (n + 1) - 0.5) * 0.1, v_z = (random (n + 2) - 0.5) * 0.1\<rparr>"

definition drift :: "engine \<Rightarrow> (nat \<Rightarrow> real) \<Rightarrow> nat \<times> nat \<Rightarrow> dream_state \<Rightarrow> dream_state" where
  "drift eng random obj s =
     (let b = bodies s (snd obj);
          f = drift_force random (rng_calls s)
      in s\<lparr>bodies := (bodies s)(snd obj := applyForce eng f (position b) b),
            rng_calls := rng_calls s + 3\<rparr>)"

definition render_dream :: "frame \<Rightarrow> dream_state \<Rightarrow> dream_state" where
  "render_dream f s = (if compiles f then s\<lparr>heartShader := onBeforeCompile (heartShader s)\<rparr> else s)"

definition animate_dream :: "engine \<Rightarrow> (nat \<Rightarrow> real) \<Rightarrow> frame \<Rightarrow> dream_state \<Rightarrow> dream_state" where
  "animate_dream eng random f s0 =
     (let s1 = s0\<lparr>bodies := world_step eng (1 / 60) (deltaTime f) 3 (bodies s0)\<rparr>;
          s2 = fold sync_mesh (objectsToUpdate s1) s1;
          s3 = s2\<lparr>heartShader := shader_update (elapsedTime f) (heartShader s2)\<rparr>;
          s4 = s3\<lparr>particleMesh := river_update (elapsedTime f) (particleMesh s3)\<rparr>;
          s5 = fold (drift eng random) (objectsToUpdate s4) s4
      in render_dream f s5)"

definition run_dream :: "engine \<Rightarrow> (nat \<Rightarrow> real) \<Rightarrow> frame list \<Rightarrow> dream_state \<Rightarrow> dream_state" where
  "run_dream eng random fs s = fold (animate_dream eng random) fs s"

text \<open>
  part_000, lines 209-222.  The handler differs from the one of main.js in the duration
  and in a second tween, on the focus of the depth-of-field pass:
  \<^verbatim>\<open>
  gsap.to(controls.target, { ...focusData.position, duration: 2, ease: 'power3.inOut' });
  gsap.to(bokehPass.uniforms.focus, { value: controls.target.distanceTo(camera.position) - 3, duration: 2, ease: 'power3.inOut' });
  \<close>
  The camera position at the time of the click is the parameter \<open>camera\<close>.
\<close>

definition distanceTo :: "vec3 \<Rightarrow> vec3 \<Rightarrow> real" where
  "distanceTo a b = sqrt ((v_x a - v_x b)\<^sup>2 + (v_y a - v_y b)\<^sup>2 + (v_z a - v_z b)\<^sup>2)"

definition click_dream :: "(ease \<Rightarrow> real \<Rightarrow> real) \<Rightarrow> real \<Rightarrow> vec3 \<Rightarrow> (nat \<Rightarrow> real list) \<Rightarrow> dream_state \<Rightarrow> dream_state outcome" where
  "click_dream curve now camera hits s =
     (let intersects = intersectObjects hits (interactiveObjects s) in
      if length intersects > 0 then
        (let focusData = lookup (focusPoints s) (obj_name s (object (intersects ! 0)))
         in if truthy focusData then
              (let s1 = s\<lparr>controls_target :=
                          spread_to curve now (controls_target s) (position_of focusData) 2 Power3InOut\<rparr>;
                   s2 = s1\<lparr>bokeh_focus := gsap_to curve now (bokeh_focus s1)
                                (distanceTo (tween_at3 curve (controls_target s1) now) camera - 3) 2 Power3InOut\<rparr>
               in write_info focusData s2)
            else Done s)
      else Done s)"

section \<open>The deep-sea scene as built\<close>

text \<open>
  Handles in order of creation in main.js: 0 hemisphere light, 1 floor, 2 caustics light,
  3 jellyfish, 4 core light, 5-7 tablets, 8 code vents, 9 swarm.  The floor is added to
  the scene a second time as the target of the caustics light, which moves it behind
  that light in \<open>children\<close>.  The random initial particle positions and the initial
  text of the page are parameters.  The table of focus points has the four entries of
  the script.
\<close>

definition main_names :: "nat \<Rightarrow> string" where
  "main_names h =
     (if h = 3 then ''graphics''
      else if h = 5 \<or> h = 6 \<or> h = 7 then ''photography''
      else if h = 8 then ''programming''
      else if h = 9 then ''eating''
      else [])"

definition main_focusPoints :: "string \<rightharpoonup> focus_data" where
  "main_focusPoints =
     [''graphics'' \<mapsto> \<lparr>fp_position = \<lparr>v_x = 0, v_y = 5, v_z = 10\<rparr>,
        title = ''The Anomaly.'',
        description = ''The heart of the abyss. A creature of pure light and impossible form. It bends pixels to its will.''\<rparr>,
      ''photography'' \<mapsto> \<lparr>fp_position = \<lparr>v_x = - 15, v_y = 2, v_z = 10\<rparr>,
        title = ''Lost Signals.'',
        description = ''Fossilized light, imprinted on stone. Memories from another world, glowing in the dark.''\<rparr>,
      ''programming'' \<mapsto> \<lparr>fp_position = \<lparr>v_x = 15, v_y = 5, v_z = - 5\<rparr>,
        title = ''Geysers of Logic.'',
        description = ''Structure, bubbling up from the chaos. Pure syntax given form. Luau, C++, Python... the elements of creation.''\<rparr>,
      ''eating'' \<mapsto> \<lparr>fp_position = \<lparr>v_x = - 20, v_y = 8, v_z = - 15\<rparr>,
        title = ''The Swarm.'',
        description = ''The energy. A single, hungry mind moving as one. It consumes, it fuels, it lives.''\<rparr>]"

definition main_scene :: "real list \<Rightarrow> real list \<Rightarrow> string \<Rightarrow> string \<Rightarrow> main_state" where
  "main_scene ventPosArray swarmPos title0 description0 =
     \<lparr>interactiveObjects = [3, 5, 6, 7, 8, 9],
      obj_name = main_names,
      focusPoints = main_focusPoints,
      controls_target = still \<lparr>v_x = 0, v_y = 2, v_z = 0\<rparr>,
      info_title = Some title0,
      info_description = Some description0,
      children = [0, 2, 1, 3, 4, 5, 6, 7, 8, 9],
      causticsOffset = (0, 0),
      jellyfishShader = None,
      jellyfish_y = 5,
      coreLight_y = 5,
      coreLight_intensity = 10,
      codeVents_array = ventPosArray,
      swarmPosArray = swarmPos,
      swarm_array = swarmPos,
      emissiveIntensity = (\<lambda>_. still 0)\<rparr>"

section \<open>The dream scene as built\<close>

text \<open>
  Handles in order of creation in part_000: 0 heart, 1-3 glass panes, 4-53 spires,
  54 the particle river; the bodies of the panes have the handles 0-2 in the physics
  world.  The initial bodies, the random particle positions and the initial text of the
  page are parameters; \<open>rng_calls\<close> counts from the start of the frame loop.
\<close>

definition dream_names :: "nat \<Rightarrow> string" where
  "dream_names h =
     (if h = 0 then ''graphics''
      else if h = 1 \<or> h = 2 \<or> h = 3 then ''photography''
      else if 4 \<le> h \<and> h < 54 then ''programming''
      else if h = 54 then ''eating''
      else [])"

definition dream_focusPoints :: "string \<rightharpoonup> focus_data" where
  "dream_focusPoints =
     [''graphics'' \<mapsto> \<lparr>fp_position = \<lparr>v_x = 0, v_y = 2, v_z = 7\<rparr>,
        title = ''The Heart.'',
        description = ''Everything starts here. A chaotic mix of logic and light. It beats with the rhythm of creation.''\<rparr>,
      ''photography'' \<mapsto> \<lparr>fp_position = \<lparr>v_x = 10, v_y = 2, v_z = - 5\<rparr>,
        title = ''Frozen Moments.'',
        description = ''Memories trapped in glass, drifting through the subconscious. Each one a story.''\<rparr>,
      ''programming'' \<mapsto> \<lparr>fp_position = \<lparr>v_x = - 18, v_y = 4, v_z = - 15\<rparr>,
        title = ''The Spires of Logic.'',
        description = ''Order rising from chaos. Cold, hard structures built from pure thought. Luau, C++, Python... the architects.''\<rparr>,
      ''eating'' \<mapsto> \<lparr>fp_position = \<lparr>v_x = 0, v_y = - 10, v_z = 0\<rparr>,
        title = ''The River of Life.'',
        description = ''The fuel. The energy that flows through everything. The best part of the dream.''\<rparr>]"

definition dream_scene :: "(nat \<Rightarrow> body) \<Rightarrow> real list \<Rightarrow> string \<Rightarrow> string \<Rightarrow> dream_state" where
  "dream_scene bodies0 posArray0 title0 description0 =
     \<lparr>interactiveObjects = [0..<55],
      obj_name = dream_names,
      focusPoints = dream_focusPoints,
      controls_target = still \<lparr>v_x = 0, v_y = 2, v_z = 0\<rparr>,
      info_title = Some title0,
      info_description = Some description0,
      bodies = bodies0,
      meshes = (\<lambda>_. \<lparr>mesh_position = \<lparr>v_x = 0, v_y = 0, v_z = 0\<rparr>,
                       mesh_quaternion = \<lparr>q_x = 0, q_y = 0, q_z = 0, q_w = 1\<rparr>\<rparr>),
      objectsToUpdate = [(1, 0), (2, 1), (3, 2)],
      heartShader = None,
      particleMesh = \<lparr>posArray = posArray0, rotation_y = 0\<rparr>,
      rng_calls = 0,
      bokeh_focus = still 15\<rparr>"

section \<open>Example inputs\<close>

text \<open>A frame during which the pointer ray meets no object and nothing is compiled.\<close>

definition quiet_frame :: "real \<Rightarrow> real \<Rightarrow> frame" where
  "quiet_frame dt t = \<lparr>deltaTime = dt, elapsedTime = t, pointer_hits = (\<lambda>_. []), compiles = False\<rparr>"

text \<open>The pointer ray meets only the object \<open>obj\<close>, at the ray parameters \<open>ds\<close>.\<close>

definition only_hit :: "nat \<Rightarrow> real list \<Rightarrow> nat \<Rightarrow> real list" where
  "only_hit obj ds h = (if h = obj then ds else [])"

text \<open>
  A frame at time \<open>t\<close> during which the pointer ray meets only the object \<open>obj\<close>, at the
  ray parameters \<open>ds\<close>; and \<open>n\<close> such frames, \<open>dt\<close> apart, from time \<open>t0\<close> on.
\<close>

definition pointed_frame :: "nat \<Rightarrow> real list \<Rightarrow> real \<Rightarrow> real \<Rightarrow> frame" where
  "pointed_frame obj ds dt t =
     \<lparr>deltaTime = dt, elapsedTime = t, pointer_hits = only_hit obj ds, compiles = False\<rparr>"

definition steady_frames :: "nat \<Rightarrow> real list \<Rightarrow> real \<Rightarrow> real \<Rightarrow> nat \<Rightarrow> frame list" where
  "steady_frames obj ds t0 dt n = map (\<lambda>k. pointed_frame obj ds dt (t0 + real k * dt)) [0..<n]"

text \<open>A frame whose render compiles the program of the shader-bearing material.\<close>

definition compiling_frame :: "real \<Rightarrow> real \<Rightarrow> frame" where
  "compiling_frame dt t = \<lparr>deltaTime = dt, elapsedTime = t, pointer_hits = (\<lambda>_. []), compiles = True\<rparr>"

text \<open>
  An engine to instantiate the parameter in examples.  \<open>applyForce\<close> is the library's,
  as its documentation has it: the second argument is a point relative to the centre of
  mass; the force is added to the body's force, and its moment about the centre of
  mass, point \<open>\<times>\<close> force, to the body's torque.  The step is a stand-in that moves every
  body along its velocity.
\<close>

definition cross :: "vec3 \<Rightarrow> vec3 \<Rightarrow> vec3" where
  "cross a b =
     \<lparr>v_x = v_y a * v_z b - v_z a * v_y b,
      v_y = v_z a * v_x b - v_x a * v_z b,
      v_z = v_x a * v_y b - v_y a * v_x b\<rparr>"

definition vadd :: "vec3 \<Rightarrow> vec3 \<Rightarrow> vec3" where
  "vadd a b = \<lparr>v_x = v_x a + v_x b, v_y = v_y a + v_y b, v_z = v_z a + v_z b\<rparr>"

definition example_engine :: engine where
  "example_engine =
     \<lparr>world_step = (\<lambda>fixedStep dt maxSubSteps bs h.
        (bs h)\<lparr>position :=
           \<lparr>v_x = v_x (position (bs h)) + dt * v_x (velocity (bs h)),
            v_y = v_y (position (bs h)) + dt * v_y (velocity (bs h)),
            v_z = v_z (position (bs h)) + dt * v_z (velocity (bs h))\<rparr>\<rparr>),
      applyForce = (\<lambda>f relativePoint b.
        b\<lparr>force := vadd (force b) f, torque := vadd (torque b) (cross relativePoint f)\<rparr>)\<rparr>"

definition body_at :: "vec3 \<Rightarrow> body" where
  "body_at p =
     \<lparr>position = p,
      quaternion = \<lparr>q_x = 0, q_y = 0, q_z = 0, q_w = 1\<rparr>,
      velocity = \<lparr>v_x = 0, v_y = 0, v_z = 0\<rparr>,
      angularVelocity = \<lparr>v_x = 0, v_y = 0, v_z = 0\<rparr>,
      force = \<lparr>v_x = 0, v_y = 0, v_z = 0\<rparr>,
      torque = \<lparr>v_x = 0, v_y = 0, v_z = 0\<rparr>\<rparr>"

definition example_bodies :: "nat \<Rightarrow> body" where
  "example_bodies h = body_at \<lparr>v_x = 10, v_y = 2 * real h, v_z = 0\<rparr>"

definition example_random :: "nat \<Rightarrow> real" where
  "example_random n = (if even n then 1 / 4 else 3 / 4)"

text \<open>
  The pointer ray meets the jellyfish (3) at 22 and 28, the first tablet (5) at 22 as
  well, and the swarm (9) at 40.
\<close>

definition tied_hits :: "nat \<Rightarrow> real list" where
  "tied_hits h = (if h = 3 then [22, 28] else if h = 5 then [22] else if h = 9 then [40] else [])"


text \<open>A scene in which the jellyfish carries a tag that has no focus point.\<close>

definition mistagged_scene :: main_state where
  "mistagged_scene =
     (main_scene [] [] ''Welcome'' ''Explore'')
       \<lparr>obj_name := (\<lambda>h. if h = 3 then ''decoration'' else main_names h)\<rparr>"

definition mistagged_dream :: dream_state where
  "mistagged_dream =
     (dream_scene example_bodies [] ''Welcome'' ''Explore'')
       \<lparr>obj_name := (\<lambda>h. if h = 3 then ''decoration'' else dream_names h)\<rparr>"

section \<open>Properties of the rounding\<close>

lemma binade_eqI:
  assumes "2 powi k \<le> \<bar>x\<bar>" "\<bar>x\<bar> < 2 powi (k + 1)"
  shows "binade x = k"
proof -
  have pos: "0 < \<bar>x\<bar>" using assms(1) by (smt (verit) zero_less_power_int)
  have pw: "(2::real) powr (of_int j) = 2 powi j" for j
    by (simp add: powr_real_of_int')
  have "2 powr (of_int k) \<le> \<bar>x\<bar>"
    using assms(1) unfolding pw .
  moreover have "\<bar>x\<bar> < 2 powr (of_int (k + 1))"
    using assms(2) unfolding pw .
  ultimately have "of_int k \<le> log 2 \<bar>x\<bar>" "log 2 \<bar>x\<bar> < of_int (k + 1)"
    using pos by (simp_all add: le_log_iff log_less_iff del: of_int_add)
  then have "of_int k \<le> log 2 \<bar>x\<bar>" "log 2 \<bar>x\<bar> < of_int k + 1" by simp_all
  then show ?thesis unfolding binade_def by linarith
qed

lemma round_half_even_bounds:
  "of_int (round_half_even q) \<le> q + 1 / 2 \<and> q - 1 / 2 \<le> of_int (round_half_even q)"
  unfolding round_half_even_def Let_def by (auto; linarith)

lemma round_half_even_le:
  assumes "q \<le> of_int N"
  shows "round_half_even q \<le> N"
proof -
  have "\<lfloor>q\<rfloor> \<le> N" using assms by (simp add: floor_le_iff)
  show ?thesis
  proof (cases "\<lfloor>q\<rfloor> = N")
    case True
    then have "q - of_int \<lfloor>q\<rfloor> \<le> 0" using assms by simp
    then show ?thesis using True by (simp add: round_half_even_def Let_def)
  next
    case False
    then have "\<lfloor>q\<rfloor> + 1 \<le> N" using \<open>\<lfloor>q\<rfloor> \<le> N\<close> by simp
    then show ?thesis using \<open>\<lfloor>q\<rfloor> \<le> N\<close> by (simp add: round_half_even_def Let_def)
  qed
qed

lemma round_half_even_nonneg: "0 \<le> q \<Longrightarrow> 0 \<le> round_half_even q"
  by (simp add: round_half_even_def Let_def)

lemma round_half_even_of_int: "round_half_even (of_int n) = n"
  by (simp add: round_half_even_def)

lemma round_float_nonneg: "0 \<le> x \<Longrightarrow> 0 \<le> round_float p emin x"
  by (simp add: round_float_def Let_def round_half_even_nonneg)

lemma binade_le:
  assumes "x \<noteq> 0" "\<bar>x\<bar> < 2 powi (k + 1)"
  shows "binade x \<le> k"
proof -
  have pw: "(2::real) powr (of_int j) = 2 powi j" for j
    by (simp add: powr_real_of_int')
  have "\<bar>x\<bar> < 2 powr (of_int (k + 1))" using assms(2) unfolding pw .
  then have "log 2 \<bar>x\<bar> < of_int (k + 1)"
    using assms(1) by (simp add: log_less_iff del: of_int_add)
  then have "log 2 \<bar>x\<bar> < of_int k + 1" by simp
  then show ?thesis unfolding binade_def by linarith
qed

lemma round_float_eval:
  assumes "2 powi k \<le> \<bar>x\<bar>" "\<bar>x\<bar> < 2 powi (k + 1)" "emin \<le> k"
  shows "round_float p emin x =
           of_int (round_half_even (x / 2 powi (k - (p - 1)))) * 2 powi (k - (p - 1))"
proof -
  have "0 < \<bar>x\<bar>" using assms(1) by (smt (verit) zero_less_power_int)
  then have "x \<noteq> 0" by simp
  moreover have "max (binade x) emin = k" using binade_eqI [OF assms(1,2)] assms(3) by simp
  ultimately show ?thesis by (simp add: round_float_def Let_def)
qed

lemma round_half_even_up:
  "of_int n + 1 / 2 < q \<Longrightarrow> q < of_int n + 1 \<Longrightarrow> round_half_even q = n + 1"
proof -
  assume a: "of_int n + 1 / 2 < q" "q < of_int n + 1"
  then have "\<lfloor>q\<rfloor> = n" by linarith
  then show ?thesis using a by (simp add: round_half_even_def Let_def)
qed

lemma round_half_even_down:
  "of_int n \<le> q \<Longrightarrow> q < of_int n + 1 / 2 \<Longrightarrow> round_half_even q = n"
proof -
  assume a: "of_int n \<le> q" "q < of_int n + 1 / 2"
  then have "\<lfloor>q\<rfloor> = n" by linarith
  then show ?thesis using a by (simp add: round_half_even_def Let_def)
qed

text \<open>Below 20 the value stored into a Float32Array is at most 20.\<close>

lemma fround_below_20:
  assumes "0 \<le> r" "r < 20"
  shows "0 \<le> fround r \<and> fround r \<le> 20"
proof (cases "r = 0")
  case True
  then show ?thesis by (simp add: fround_def round_float_def)
next
  case False
  define e where "e = max (binade r) (- 126)"
  define u :: real where "u = 2 powi (e - 23)"
  have "\<bar>r\<bar> < 2 powi (4 + 1)" using assms by simp
  then have "binade r \<le> 4" using False by (rule binade_le [rotated])
  then have e: "e \<le> 4" unfolding e_def by simp
  have u: "0 < u" unfolding u_def by simp
  define N :: int where "N = 20 * 2 ^ nat (23 - e)"
  have "(2::real) powi (23 - e) = 2 ^ nat (23 - e)" using e by (simp add: power_int_def)
  moreover have "(2::real) powi (e - 23) * 2 powi (23 - e) = 1"
    by (simp flip: power_int_add)
  ultimately have Nu: "of_int N * u = 20" unfolding N_def u_def by (simp add: mult.commute mult.left_commute)
  then have "20 / u = of_int N" using u by (simp add: field_simps)
  then have "r / u \<le> of_int N" using assms u by (smt (verit) divide_right_mono)
  then have "round_half_even (r / u) \<le> N" by (rule round_half_even_le)
  then have "of_int (round_half_even (r / u)) * u \<le> of_int N * u"
    using u by (simp add: mult_right_mono)
  then have hi: "of_int (round_half_even (r / u)) * u \<le> 20" using Nu by simp
  have "0 \<le> r / u" using assms u by simp
  then have "0 \<le> round_half_even (r / u)" by (rule round_half_even_nonneg)
  then have lo: "0 \<le> of_int (round_half_even (r / u)) * u" using u by simp
  have "fround r = of_int (round_half_even (r / u)) * u"
    using False by (simp add: fround_def round_float_def Let_def e_def u_def)
  with lo hi show ?thesis by simp
qed

lemma to_double_nonneg: "0 \<le> x \<Longrightarrow> 0 \<le> to_double x"
  by (simp add: to_double_def round_float_nonneg)

lemma to_double_below_20: "to_double (20 - 1 / 2 ^ 39) = 20 - 1 / 2 ^ 39"
proof -
  let ?x = "20 - 1 / 2 ^ 39 :: real"
  have b: "2 powi 4 \<le> \<bar>?x\<bar>" "\<bar>?x\<bar> < 2 powi (4 + 1)" "(- 1022 :: int) \<le> 4" by simp_all
  have e: "to_double ?x = of_int (round_half_even (?x / 2 powi (4 - (53 - 1)))) * 2 powi (4 - (53 - 1))"
    unfolding to_double_def by (rule round_float_eval [OF b])
  have u: "(2::real) powi (4 - (53 - 1)) = 1 / 2 ^ 48" by (simp add: power_int_minus field_simps)
  have "?x / (1 / 2 ^ 48) = of_int (20 * 2 ^ 48 - 2 ^ 9)" by simp
  then have q: "round_half_even (?x / (1 / 2 ^ 48)) = 20 * 2 ^ 48 - 2 ^ 9"
    by (simp only: round_half_even_of_int)
  have "to_double ?x = of_int (20 * 2 ^ 48 - 2 ^ 9) * (1 / 2 ^ 48)" using e unfolding u q .
  then show ?thesis by simp
qed

lemma fround_rounds_up_to_20: "fround (20 - 1 / 2 ^ 39) = 20"
proof -
  let ?x = "20 - 1 / 2 ^ 39 :: real"
  have b: "2 powi 4 \<le> \<bar>?x\<bar>" "\<bar>?x\<bar> < 2 powi (4 + 1)" "(- 126 :: int) \<le> 4" by simp_all
  have e: "fround ?x = of_int (round_half_even (?x / 2 powi (4 - (24 - 1)))) * 2 powi (4 - (24 - 1))"
    unfolding fround_def by (rule round_float_eval [OF b])
  have u: "(2::real) powi (4 - (24 - 1)) = 1 / 2 ^ 19" by (simp add: power_int_minus field_simps)
  have q: "round_half_even (?x / (1 / 2 ^ 19)) = (20 * 2 ^ 19 - 1) + 1"
    by (rule round_half_even_up) simp_all
  have "fround ?x = of_int ((20 * 2 ^ 19 - 1) + 1) * (1 / 2 ^ 19)" using e unfolding u q .
  then show ?thesis by simp
qed

section \<open>Properties of the particle fields\<close>

lemma fold_pointwise_nth:
  assumes "n \<le> length arr" "j < length arr"
  shows "length (fold (\<lambda>i a. a[i := g i (a ! i)]) [0..<n] arr) = length arr \<and>
         fold (\<lambda>i a. a[i := g i (a ! i)]) [0..<n] arr ! j = (if j < n then g j (arr ! j) else arr ! j)"
  using assms
proof (induction n)
  case 0
  then show ?case by simp
next
  case (Suc n)
  then show ?case by (auto simp: nth_list_update less_Suc_eq)
qed

lemma forEach_pointwise:
  assumes cb: "\<And>i a. cb (a ! i) i a = a[i := g i (a ! i)]"
  shows "length (forEach cb arr) = length arr \<and> (\<forall>j<length arr. forEach cb arr ! j = g j (arr ! j))"
proof -
  have eq: "forEach cb arr = fold (\<lambda>i a. a[i := g i (a ! i)]) [0..<length arr] arr"
    unfolding forEach_def by (simp add: cb)
  show ?thesis
  proof (cases "arr = []")
    case True
    then show ?thesis by (simp add: forEach_def)
  next
    case False
    then have pos: "0 < length arr" by simp
    have len: "length (forEach cb arr) = length arr"
      using fold_pointwise_nth [OF le_refl pos, of g] by (simp add: eq)
    have "\<forall>j<length arr. forEach cb arr ! j = g j (arr ! j)"
      using fold_pointwise_nth [OF le_refl, of _ arr g] by (simp add: eq)
    with len show ?thesis by simp
  qed
qed

lemma vent_callback_pointwise:
  "vent_callback dt (a ! i) i a =
     a[i := (if i mod 3 = 1 then fround (js_rem (to_double (a ! i + dt * 2)) 20) else a ! i)]"
  by (simp add: vent_callback_def)

lemma vent_update_length: "length (vent_update dt arr) = length arr"
  unfolding vent_update_def
  using forEach_pointwise [of "vent_callback dt", OF vent_callback_pointwise] by simp

lemma vent_update_nth:
  "j < length arr \<Longrightarrow>
   vent_update dt arr ! j =
     (if j mod 3 = 1 then fround (js_rem (to_double (arr ! j + dt * 2)) 20) else arr ! j)"
  unfolding vent_update_def
  using forEach_pointwise [of "vent_callback dt", OF vent_callback_pointwise] by simp

lemma swarm_callback_pointwise:
  "swarm_callback t base (a ! i) i a =
     a[i := (if i mod 3 = 0 then base ! i + sin (t + base ! i) * 2
             else if i mod 3 = 1 then base ! i + cos (t + base ! i) * 2 else a ! i)]"
  by (simp add: swarm_callback_def Let_def)

lemma swarm_update_length: "length (swarm_update t base arr) = length arr"
  unfolding swarm_update_def
  using forEach_pointwise [of "swarm_callback t base", OF swarm_callback_pointwise] by simp

lemma swarm_update_nth:
  "j < length arr \<Longrightarrow>
   swarm_update t base arr ! j =
     (if j mod 3 = 0 then base ! j + sin (t + base ! j) * 2
      else if j mod 3 = 1 then base ! j + cos (t + base ! j) * 2 else arr ! j)"
  unfolding swarm_update_def
  using forEach_pointwise [of "swarm_callback t base", OF swarm_callback_pointwise] by simp

lemma js_rem_nonneg:
  assumes "0 \<le> a" "0 < b"
  shows "js_rem a b = a - b * of_int \<lfloor>a / b\<rfloor> \<and> 0 \<le> js_rem a b \<and> js_rem a b < b"
proof -
  from assms have q: "0 \<le> a / b" by simp
  then have eq: "js_rem a b = a - b * of_int \<lfloor>a / b\<rfloor>" by (simp add: js_rem_def trunc_def)
  have ba: "b * (a / b) = a" using assms(2) by simp
  have "b * of_int \<lfloor>a / b\<rfloor> \<le> b * (a / b)"
    by (rule mult_left_mono) (use assms(2) in simp_all)
  then have lo: "0 \<le> js_rem a b" unfolding eq ba by simp
  have "a / b < of_int \<lfloor>a / b\<rfloor> + 1" by linarith
  then have "b * (a / b) < b * (of_int \<lfloor>a / b\<rfloor> + 1)"
    using assms(2) by (simp only: mult_less_cancel_left_pos)
  then have "js_rem a b < b" unfolding eq ba by (simp add: algebra_simps)
  with eq lo show ?thesis by simp
qed

lemma round_float_exact:
  assumes "2 powi k \<le> \<bar>x\<bar>" "\<bar>x\<bar> < 2 powi (k + 1)" "emin \<le> k"
    and "x / 2 powi (k - (p - 1)) = of_int m"
  shows "round_float p emin x = x"
proof -
  have "round_float p emin x = of_int m * 2 powi (k - (p - 1))"
    by (simp only: round_float_eval [OF assms(1-3)] assms(4) round_half_even_of_int)
  also have "\<dots> = x / 2 powi (k - (p - 1)) * 2 powi (k - (p - 1))" by (simp only: assms(4))
  also have "\<dots> = x" by simp
  finally show ?thesis .
qed

lemma to_double_159_2: "to_double (159 / 2) = 159 / 2"
  unfolding to_double_def
  by (rule round_float_exact [where k = 6 and m = "159 * 2 ^ 45"])
     (simp_all add: power_int_minus field_simps)

lemma fround_39_2: "fround (39 / 2) = 39 / 2"
  unfolding fround_def
  by (rule round_float_exact [where k = 4 and m = "39 * 2 ^ 18"])
     (simp_all add: power_int_minus field_simps)

lemma js_rem_159_2: "js_rem (159 / 2) 20 = 39 / 2"
proof -
  have "\<lfloor>159 / 40 :: real\<rfloor> = 3" by (rule floor_unique) simp_all
  then show ?thesis by (simp add: js_rem_def trunc_def)
qed

lemma vent_step:
  assumes "i < length arr" "i mod 3 = 1" "0 \<le> arr ! i" "0 \<le> dt"
  shows "vent_update dt arr ! i =
           fround (to_double (arr ! i + dt * 2)
                     - 20 * of_int \<lfloor>to_double (arr ! i + dt * 2) / 20\<rfloor>)
         \<and> 0 \<le> vent_update dt arr ! i \<and> vent_update dt arr ! i \<le> 20"
proof -
  have "0 \<le> arr ! i + dt * 2" using assms by simp
  then have "0 \<le> to_double (arr ! i + dt * 2)" by (rule to_double_nonneg)
  from js_rem_nonneg [OF this, of 20]
  have r: "js_rem (to_double (arr ! i + dt * 2)) 20 =
        to_double (arr ! i + dt * 2) - 20 * of_int \<lfloor>to_double (arr ! i + dt * 2) / 20\<rfloor>"
    and lo: "0 \<le> js_rem (to_double (arr ! i + dt * 2)) 20"
    and hi: "js_rem (to_double (arr ! i + dt * 2)) 20 < 20" by simp_all
  from fround_below_20 [OF lo hi] r assms(1,2) show ?thesis
    by (simp add: vent_update_nth)
qed

section \<open>Which fields a frame touches\<close>

lemma hover_child_only_glow:
  "hover_child curve now xs c s = s\<lparr>emissiveIntensity := emissiveIntensity (hover_child curve now xs c s)\<rparr>"
  by (simp add: hover_child_def Let_def)

lemma fold_hover_child_only_glow:
  "fold (hover_child curve now xs) cs s =
     s\<lparr>emissiveIntensity := emissiveIntensity (fold (hover_child curve now xs) cs s)\<rparr>"
proof (induction cs arbitrary: s)
  case Nil
  then show ?case by simp
next
  case (Cons c cs)
  have "fold (hover_child curve now xs) (c # cs) s
      = fold (hover_child curve now xs) cs (hover_child curve now xs c s)" by simp
  also have "\<dots> = (hover_child curve now xs c s)
      \<lparr>emissiveIntensity := emissiveIntensity (fold (hover_child curve now xs) (c # cs) s)\<rparr>"
    using Cons.IH [of "hover_child curve now xs c s"] by simp
  also have "\<dots> = s\<lparr>emissiveIntensity := emissiveIntensity (fold (hover_child curve now xs) (c # cs) s)\<rparr>"
    by (subst hover_child_only_glow) simp
  finally show ?case .
qed

lemma hover_only_glow:
  "hover curve f s = s\<lparr>emissiveIntensity := emissiveIntensity (hover curve f s)\<rparr>"
  unfolding hover_def Let_def by (rule fold_hover_child_only_glow)

lemma hover_fields:
  "swarm_array (hover curve f s) = swarm_array s"
  "swarmPosArray (hover curve f s) = swarmPosArray s"
  "codeVents_array (hover curve f s) = codeVents_array s"
  "jellyfishShader (hover curve f s) = jellyfishShader s"
  "controls_target (hover curve f s) = controls_target s"
  "info_title (hover curve f s) = info_title s"
  "info_description (hover curve f s) = info_description s"
  by (subst hover_only_glow, simp)+

lemma animate_swarm_array:
  "swarm_array (animate curve f s) = swarm_update (elapsedTime f) (swarmPosArray s) (swarm_array s)"
  by (simp add: animate_def render_def Let_def hover_fields)

lemma animate_swarmPosArray: "swarmPosArray (animate curve f s) = swarmPosArray s"
  by (simp add: animate_def render_def Let_def hover_fields)

lemma animate_codeVents_array:
  "codeVents_array (animate curve f s) = vent_update (deltaTime f) (codeVents_array s)"
  by (simp add: animate_def render_def Let_def hover_fields)

lemma animate_jellyfishShader:
  "jellyfishShader (animate curve f s) =
     (if compiles f then Some \<lparr>uTime = 0\<rparr> else shader_update (elapsedTime f) (jellyfishShader s))"
  by (simp add: animate_def render_def Let_def hover_fields onBeforeCompile_def)

lemma animate_ui:
  "controls_target (animate curve f s) = controls_target s"
  "info_title (animate curve f s) = info_title s"
  "info_description (animate curve f s) = info_description s"
  by (simp_all add: animate_def render_def Let_def hover_fields)

lemma run_controls_target: "controls_target (run curve fs s) = controls_target s"
  by (induction fs rule: rev_induct) (simp_all add: run_def animate_ui)

lemma run_snoc: "run curve (fs @ [f]) s = animate curve f (run curve fs s)"
  by (simp add: run_def)

lemma run_swarmPosArray: "swarmPosArray (run curve fs s) = swarmPosArray s"
  by (induction fs rule: rev_induct) (simp_all add: run_def animate_swarmPosArray)

lemma run_swarm_length: "length (swarm_array (run curve fs s)) = length (swarm_array s)"
  by (induction fs rule: rev_induct) (simp_all add: run_def animate_swarm_array swarm_update_length)

lemma run_vent_length: "length (codeVents_array (run curve fs s)) = length (codeVents_array s)"
  by (induction fs rule: rev_induct) (simp_all add: run_def animate_codeVents_array vent_update_length)

lemma run_swarm_z:
  "i < length (swarm_array s) \<Longrightarrow> i mod 3 = 2 \<Longrightarrow> swarm_array (run curve fs s) ! i = swarm_array s ! i"
proof (induction fs rule: rev_induct)
  case Nil
  then show ?case by (simp add: run_def)
next
  case (snoc f fs)
  then show ?case
    by (simp add: run_snoc animate_swarm_array swarm_update_nth run_swarm_length)
qed

lemma run_vent_xz:
  "i < length (codeVents_array s) \<Longrightarrow> i mod 3 \<noteq> 1 \<Longrightarrow>
   codeVents_array (run curve fs s) ! i = codeVents_array s ! i"
proof (induction fs rule: rev_induct)
  case Nil
  then show ?case by (simp add: run_def)
next
  case (snoc f fs)
  then show ?case
    by (simp add: run_snoc animate_codeVents_array vent_update_nth run_vent_length)
qed

lemma run_vent_nonneg:
  assumes "i < length (codeVents_array s)" "i mod 3 = 1" "0 \<le> codeVents_array s ! i"
    and "\<forall>g \<in> set fs. 0 \<le> deltaTime g"
  shows "0 \<le> codeVents_array (run curve fs s) ! i"
  using assms(4)
proof (induction fs rule: rev_induct)
  case Nil
  then show ?case using assms(3) by (simp add: run_def)
next
  case (snoc f fs)
  then have prev: "0 \<le> codeVents_array (run curve fs s) ! i" and dt: "0 \<le> deltaTime f" by simp_all
  have len: "i < length (codeVents_array (run curve fs s))" using assms(1) by (simp add: run_vent_length)
  from vent_step [OF len assms(2) prev dt] show ?case
    by (simp add: run_snoc animate_codeVents_array)
qed

lemma fold_sync_mesh_only_meshes:
  "fold sync_mesh objs s = s\<lparr>meshes := meshes (fold sync_mesh objs s)\<rparr>"
proof (induction objs arbitrary: s)
  case Nil
  then show ?case by simp
next
  case (Cons obj objs)
  have step: "sync_mesh obj s = s\<lparr>meshes := meshes (sync_mesh obj s)\<rparr>"
    by (simp add: sync_mesh_def Let_def)
  have "fold sync_mesh (obj # objs) s
      = (sync_mesh obj s)\<lparr>meshes := meshes (fold sync_mesh (obj # objs) s)\<rparr>"
    using Cons.IH [of "sync_mesh obj s"] by simp
  also have "\<dots> = s\<lparr>meshes := meshes (fold sync_mesh (obj # objs) s)\<rparr>"
    by (subst step) simp
  finally show ?case .
qed

lemma sync_mesh_bodies: "bodies (sync_mesh obj s) = bodies s"
  by (simp add: sync_mesh_def Let_def)

lemma sync_mesh_meshes:
  "meshes (sync_mesh obj s) m =
     (if m = fst obj
      then (meshes s m)\<lparr>mesh_position := position (bodies s (snd obj)),
                        mesh_quaternion := quaternion (bodies s (snd obj))\<rparr>
      else meshes s m)"
  by (simp add: sync_mesh_def Let_def)

lemma fold_sync_mesh_other:
  "m \<notin> fst ` set objs \<Longrightarrow> meshes (fold sync_mesh objs s) m = meshes s m"
  by (induction objs arbitrary: s) (simp_all add: sync_mesh_meshes)

lemma fold_sync_mesh_nth:
  assumes "distinct (map fst objs)" "k < length objs"
  shows "meshes (fold sync_mesh objs s) (fst (objs ! k)) =
           (meshes s (fst (objs ! k)))
             \<lparr>mesh_position := position (bodies s (snd (objs ! k))),
              mesh_quaternion := quaternion (bodies s (snd (objs ! k)))\<rparr>"
  using assms
proof (induction objs arbitrary: s k)
  case Nil
  then show ?case by simp
next
  case (Cons obj objs)
  show ?case
  proof (cases k)
    case 0
    have "fst obj \<notin> fst ` set objs" using Cons.prems by simp
    then show ?thesis using 0
      by (simp add: fold_sync_mesh_other sync_mesh_meshes)
  next
    case (Suc j)
    then have j: "j < length objs" and d: "distinct (map fst objs)" using Cons.prems by simp_all
    have mem: "fst (objs ! j) \<in> fst ` set objs" using j by simp
    have ne: "fst (objs ! j) \<noteq> fst obj"
    proof
      assume "fst (objs ! j) = fst obj"
      with mem have "fst obj \<in> fst ` set objs" by simp
      with Cons.prems(1) show False by simp
    qed
    show ?thesis using Cons.IH [OF d j, of "sync_mesh obj s"] Suc ne
      by (simp add: sync_mesh_bodies sync_mesh_meshes)
  qed
qed

lemma drift_only:
  "drift eng random obj s = s\<lparr>bodies := bodies (drift eng random obj s), rng_calls := rng_calls (drift eng random obj s)\<rparr>"
  by (simp add: drift_def Let_def)

lemma fold_drift_only:
  "fold (drift eng random) objs s =
     s\<lparr>bodies := bodies (fold (drift eng random) objs s),
       rng_calls := rng_calls (fold (drift eng random) objs s)\<rparr>"
proof (induction objs arbitrary: s)
  case Nil
  then show ?case by simp
next
  case (Cons obj objs)
  have "fold (drift eng random) (obj # objs) s
      = (drift eng random obj s)\<lparr>bodies := bodies (fold (drift eng random) (obj # objs) s),
           rng_calls := rng_calls (fold (drift eng random) (obj # objs) s)\<rparr>"
    using Cons.IH [of "drift eng random obj s"] by simp
  also have "\<dots> = s\<lparr>bodies := bodies (fold (drift eng random) (obj # objs) s),
           rng_calls := rng_calls (fold (drift eng random) (obj # objs) s)\<rparr>"
    by (subst drift_only) simp
  finally show ?case .
qed

lemma drift_bodies:
  "bodies (drift eng random obj s) b =
     (if b = snd obj
      then applyForce eng (drift_force random (rng_calls s)) (position (bodies s b)) (bodies s b)
      else bodies s b)"
  by (simp add: drift_def Let_def)

lemma drift_rng_calls: "rng_calls (drift eng random obj s) = rng_calls s + 3"
  by (simp add: drift_def Let_def)

lemma fold_drift_other:
  "b \<notin> snd ` set objs \<Longrightarrow> bodies (fold (drift eng random) objs s) b = bodies s b"
  by (induction objs arbitrary: s) (simp_all add: drift_bodies)

lemma fold_drift_rng_calls:
  "rng_calls (fold (drift eng random) objs s) = rng_calls s + 3 * length objs"
  by (induction objs arbitrary: s) (simp_all add: drift_rng_calls)

lemma fold_drift_nth:
  assumes "distinct (map snd objs)" "k < length objs"
  shows "bodies (fold (drift eng random) objs s) (snd (objs ! k)) =
           applyForce eng (drift_force random (rng_calls s + 3 * k))
             (position (bodies s (snd (objs ! k)))) (bodies s (snd (objs ! k)))"
  using assms
proof (induction objs arbitrary: s k)
  case Nil
  then show ?case by simp
next
  case (Cons obj objs)
  show ?case
  proof (cases k)
    case 0
    have "snd obj \<notin> snd ` set objs" using Cons.prems by simp
    then show ?thesis using 0 by (simp add: fold_drift_other drift_bodies)
  next
    case (Suc j)
    then have j: "j < length objs" and d: "distinct (map snd objs)" using Cons.prems by simp_all
    have mem: "snd (objs ! j) \<in> snd ` set objs" using j by simp
    have ne: "snd (objs ! j) \<noteq> snd obj"
    proof
      assume "snd (objs ! j) = snd obj"
      with mem have "snd obj \<in> snd ` set objs" by simp
      with Cons.prems(1) show False by simp
    qed
    show ?thesis using Cons.IH [OF d j, of "drift eng random obj s"] Suc ne
      by (simp add: drift_bodies drift_rng_calls algebra_simps)
  qed
qed

lemma fold_drift_cong:
  assumes "bodies s = bodies t" "rng_calls s = rng_calls t"
  shows "bodies (fold (drift eng random) objs s) = bodies (fold (drift eng random) objs t)"
  using assms
proof (induction objs arbitrary: s t)
  case Nil
  then show ?case by simp
next
  case (Cons obj objs)
  have b: "bodies (drift eng random obj s) = bodies (drift eng random obj t)"
  proof (rule ext)
    fix h
    show "bodies (drift eng random obj s) h = bodies (drift eng random obj t) h"
      by (simp add: drift_bodies Cons.prems)
  qed
  have r: "rng_calls (drift eng random obj s) = rng_calls (drift eng random obj t)"
    by (simp add: drift_rng_calls Cons.prems)
  have "bodies (fold (drift eng random) objs (drift eng random obj s))
      = bodies (fold (drift eng random) objs (drift eng random obj t))"
    by (rule Cons.IH [OF b r])
  then show ?case by simp
qed

lemma fold_sync_mesh_fields:
  "bodies (fold sync_mesh objs s) = bodies s"
  "rng_calls (fold sync_mesh objs s) = rng_calls s"
  "objectsToUpdate (fold sync_mesh objs s) = objectsToUpdate s"
  "heartShader (fold sync_mesh objs s) = heartShader s"
  "particleMesh (fold sync_mesh objs s) = particleMesh s"
  by (subst fold_sync_mesh_only_meshes, simp)+

lemma fold_drift_fields:
  "meshes (fold (drift eng random) objs s) = meshes s"
  "objectsToUpdate (fold (drift eng random) objs s) = objectsToUpdate s"
  "heartShader (fold (drift eng random) objs s) = heartShader s"
  "particleMesh (fold (drift eng random) objs s) = particleMesh s"
  by (subst fold_drift_only, simp)+

lemma render_dream_bodies: "bodies (render_dream f s) = bodies s"
  by (simp add: render_dream_def)

lemma animate_dream_bodies:
  "bodies (animate_dream eng random f s) =
     bodies (fold (drift eng random) (objectsToUpdate s)
               (s\<lparr>bodies := world_step eng (1 / 60) (deltaTime f) 3 (bodies s)\<rparr>))"
proof -
  let ?s1 = "s\<lparr>bodies := world_step eng (1 / 60) (deltaTime f) 3 (bodies s)\<rparr>"
  let ?s2 = "fold sync_mesh (objectsToUpdate ?s1) ?s1"
  let ?s3 = "?s2\<lparr>heartShader := shader_update (elapsedTime f) (heartShader ?s2)\<rparr>"
  let ?s4 = "?s3\<lparr>particleMesh := river_update (elapsedTime f) (particleMesh ?s3)\<rparr>"
  have unfold: "animate_dream eng random f s = render_dream f (fold (drift eng random) (objectsToUpdate ?s4) ?s4)"
    by (simp only: animate_dream_def Let_def)
  have otu: "objectsToUpdate ?s4 = objectsToUpdate s"
    by (simp add: fold_sync_mesh_fields)
  have "bodies (animate_dream eng random f s) = bodies (fold (drift eng random) (objectsToUpdate ?s4) ?s4)"
    unfolding unfold by (rule render_dream_bodies)
  also have "\<dots> = bodies (fold (drift eng random) (objectsToUpdate s) ?s4)"
    by (simp only: otu)
  also have "\<dots> = bodies (fold (drift eng random) (objectsToUpdate s) ?s1)"
    by (rule fold_drift_cong) (simp_all add: fold_sync_mesh_fields)
  finally show ?thesis .
qed

lemma animate_dream_rng_calls:
  "rng_calls (animate_dream eng random f s) = rng_calls s + 3 * length (objectsToUpdate s)"
proof -
  let ?s1 = "s\<lparr>bodies := world_step eng (1 / 60) (deltaTime f) 3 (bodies s)\<rparr>"
  let ?s2 = "fold sync_mesh (objectsToUpdate ?s1) ?s1"
  let ?s3 = "?s2\<lparr>heartShader := shader_update (elapsedTime f) (heartShader ?s2)\<rparr>"
  let ?s4 = "?s3\<lparr>particleMesh := river_update (elapsedTime f) (particleMesh ?s3)\<rparr>"
  have unfold: "animate_dream eng random f s = render_dream f (fold (drift eng random) (objectsToUpdate ?s4) ?s4)"
    by (simp only: animate_dream_def Let_def)
  have "rng_calls (render_dream f t) = rng_calls t" for t by (simp add: render_dream_def)
  then show ?thesis
    unfolding unfold by (simp add: fold_drift_rng_calls fold_sync_mesh_fields)
qed

lemma animate_dream_meshes:
  "meshes (animate_dream eng random f s) =
     meshes (fold sync_mesh (objectsToUpdate s)
               (s\<lparr>bodies := world_step eng (1 / 60) (deltaTime f) 3 (bodies s)\<rparr>))"
  unfolding animate_dream_def render_dream_def Let_def
  by (simp add: fold_drift_fields)

lemma animate_dream_particleMesh:
  "particleMesh (animate_dream eng random f s) = river_update (elapsedTime f) (particleMesh s)"
  unfolding animate_dream_def render_dream_def Let_def
  by (simp add: fold_drift_fields fold_sync_mesh_fields)

lemma animate_dream_heartShader:
  "heartShader (animate_dream eng random f s) =
     (if compiles f then Some \<lparr>uTime = 0\<rparr> else shader_update (elapsedTime f) (heartShader s))"
  unfolding animate_dream_def render_dream_def Let_def
  by (simp add: fold_drift_fields fold_sync_mesh_fields onBeforeCompile_def)

lemma run_dream_posArray:
  "posArray (particleMesh (run_dream eng random fs s)) = posArray (particleMesh s)"
  by (induction fs rule: rev_induct)
     (simp_all add: run_dream_def animate_dream_particleMesh river_update_def)

section \<open>Tweens\<close>

lemma tween_at3_gsap_to3_start:
  "0 < d \<Longrightarrow> tween_at3 curve (gsap_to3 curve now current final d e) now = tween_at3 curve current now"
  by (simp add: tween_at3_def gsap_to3_def)

lemma tween_at3_gsap_to3_end:
  "now + d \<le> time \<Longrightarrow> tween_at3 curve (gsap_to3 curve now current final d e) time = final"
  by (simp add: tween_at3_def gsap_to3_def)

lemma tween_at_gsap_to_start:
  "0 < d \<Longrightarrow> tween_at curve (gsap_to curve now current final d e) now = tween_at curve current now"
  by (simp add: tween_at_def gsap_to_def)

lemma tween_at_gsap_to_end:
  "now + d \<le> time \<Longrightarrow> tween_at curve (gsap_to curve now current final d e) time = final"
  by (simp add: tween_at_def gsap_to_def)

lemma lerp_between:
  assumes "0 \<le> r" "r \<le> 1"
  shows "min a b \<le> lerp a b r \<and> lerp a b r \<le> max a b"
proof -
  have e1: "lerp a b r = a + (b - a) * r" by (simp add: lerp_def)
  have e2: "lerp a b r = b - (b - a) * (1 - r)" by (simp add: lerp_def algebra_simps)
  show ?thesis
  proof (cases "a \<le> b")
    case True
    then have "0 \<le> (b - a) * r" "0 \<le> (b - a) * (1 - r)" using assms by simp_all
    then have "a \<le> lerp a b r" "lerp a b r \<le> b" using e1 e2 by linarith+
    then show ?thesis using True by simp
  next
    case False
    then have "(b - a) * r \<le> 0" "(b - a) * (1 - r) \<le> 0"
      using assms by (simp_all add: mult_nonpos_nonneg)
    then have "lerp a b r \<le> a" "b \<le> lerp a b r" using e1 e2 by linarith+
    then show ?thesis using False by simp
  qed
qed

lemma lerp_off_target:
  assumes "a \<noteq> b" "r \<noteq> 1"
  shows "lerp a b r \<noteq> b"
proof -
  have "lerp a b r - b = (a - b) * (1 - r)" by (simp add: lerp_def algebra_simps)
  moreover have "(a - b) * (1 - r) \<noteq> 0" using assms by simp
  ultimately show ?thesis by auto
qed

lemma tween_at_between:
  assumes "\<forall>p. 0 < p \<and> p < 1 \<longrightarrow> 0 \<le> curve (tw_ease tw) p \<and> curve (tw_ease tw) p \<le> 1"
  shows "min (tw_from tw) (tw_to tw) \<le> tween_at curve tw time
         \<and> tween_at curve tw time \<le> max (tw_from tw) (tw_to tw)"
proof (cases "tw_start tw + tw_duration tw \<le> time \<or> time \<le> tw_start tw")
  case True
  then show ?thesis by (auto simp add: tween_at_def)
next
  case False
  then have t: "tw_start tw < time" "time < tw_start tw + tw_duration tw" by simp_all
  then have d: "0 < tw_duration tw" by simp
  have "0 < (time - tw_start tw) / tw_duration tw" "(time - tw_start tw) / tw_duration tw < 1"
    using t d by simp_all
  with assms have "0 \<le> curve (tw_ease tw) ((time - tw_start tw) / tw_duration tw)"
    "curve (tw_ease tw) ((time - tw_start tw) / tw_duration tw) \<le> 1" by blast+
  from lerp_between [OF this, of "tw_from tw" "tw_to tw"] False
  show ?thesis by (simp add: tween_at_def)
qed

lemma between_trans:
  fixes a b v w :: real
  assumes "min a b \<le> v \<and> v \<le> max a b" "min v b \<le> w \<and> w \<le> max v b"
  shows "min a b \<le> w \<and> w \<le> max a b"
  using assms by (auto simp add: min_def max_def split: if_splits)

section \<open>The first intersection\<close>

lemma hd_insort_key:
  "hd (insort_key f x ys) = (if ys = [] \<or> f x \<le> f (hd ys) then x else hd ys)"
  by (cases ys) simp_all

lemma sort_key_Nil_iff: "sort_key f xs = [] \<longleftrightarrow> xs = []"
  by (metis length_0_conv length_sort)

lemma hd_sort_key_Cons:
  "hd (sort_key f (x # xs)) = (if xs = [] \<or> f x \<le> f (hd (sort_key f xs)) then x else hd (sort_key f xs))"
  by (simp add: hd_insort_key sort_key_Nil_iff)

lemma hd_sort_key_first_min:
  "xs \<noteq> [] \<Longrightarrow>
   \<exists>pre post. xs = pre @ hd (sort_key f xs) # post
     \<and> (\<forall>y \<in> set pre. f (hd (sort_key f xs)) < f y)
     \<and> (\<forall>y \<in> set post. f (hd (sort_key f xs)) \<le> f y)"
proof (induction xs)
  case Nil
  then show ?case by simp
next
  case (Cons x xs)
  show ?case
  proof (cases "xs = []")
    case True
    then have "x # xs = [] @ hd (sort_key f (x # xs)) # []" by simp
    then show ?thesis by (metis empty_iff empty_set)
  next
    case False
    from Cons.IH [OF this] obtain pre post where
      xs: "xs = pre @ hd (sort_key f xs) # post"
      and pre: "\<forall>y \<in> set pre. f (hd (sort_key f xs)) < f y"
      and post: "\<forall>y \<in> set post. f (hd (sort_key f xs)) \<le> f y" by blast
    let ?m = "hd (sort_key f xs)"
    show ?thesis
    proof (cases "f x \<le> f ?m")
      case True
      then have h: "hd (sort_key f (x # xs)) = x" by (subst hd_sort_key_Cons) simp
      have "\<forall>y \<in> set xs. f x \<le> f y"
      proof
        fix y assume "y \<in> set xs"
        then have "y \<in> set pre \<or> y = ?m \<or> y \<in> set post" by (subst (asm) xs) auto
        then show "f x \<le> f y" using True pre post by auto
      qed
      then have "x # xs = [] @ x # xs \<and> (\<forall>y \<in> set []. f x < f y) \<and> (\<forall>y \<in> set xs. f x \<le> f y)" by simp
      then show ?thesis unfolding h by blast
    next
      case False
      then have h: "hd (sort_key f (x # xs)) = ?m" using \<open>xs \<noteq> []\<close> by (subst hd_sort_key_Cons) simp
      have "x # xs = (x # pre) @ ?m # post" using xs by simp
      moreover have "\<forall>y \<in> set (x # pre). f ?m < f y" using False pre by auto
      ultimately show ?thesis unfolding h using post by blast
    qed
  qed
qed

lemma concat_map_split:
  "concat (map g objs) = pre @ x # post \<Longrightarrow>
   \<exists>k < length objs. x \<in> set (g (objs ! k)) \<and> (\<forall>k' < k. set (g (objs ! k')) \<subseteq> set pre)"
proof (induction objs arbitrary: pre)
  case Nil
  then show ?case by simp
next
  case (Cons obj objs)
  show ?case
  proof (cases "length pre < length (g obj)")
    case True
    from Cons.prems have "g obj @ concat (map g objs) = pre @ x # post" by simp
    then have "(g obj @ concat (map g objs)) ! length pre = x" by simp
    then have "g obj ! length pre = x" using True by (simp add: nth_append)
    then have "x \<in> set (g ((obj # objs) ! 0))" using True by (metis nth_Cons_0 nth_mem)
    then show ?thesis by auto
  next
    case False
    from Cons.prems have eq: "g obj @ concat (map g objs) = pre @ x # post" by simp
    from False have le: "length (g obj) \<le> length pre" by simp
    from eq le obtain pre' where pre': "pre = g obj @ pre'"
      by (metis append_eq_append_conv_if append_take_drop_id)
    with eq have "concat (map g objs) = pre' @ x # post" by simp
    from Cons.IH [OF this] obtain k where k: "k < length objs" "x \<in> set (g (objs ! k))"
      "\<forall>k' < k. set (g (objs ! k')) \<subseteq> set pre'" by blast
    have "\<forall>k' < Suc k. set (g ((obj # objs) ! k')) \<subseteq> set pre"
    proof (intro allI impI)
      fix k' assume "k' < Suc k"
      then show "set (g ((obj # objs) ! k')) \<subseteq> set pre"
        using k(3) pre' by (cases k') auto
    qed
    moreover have "Suc k < length (obj # objs)" "x \<in> set (g ((obj # objs) ! Suc k))" using k by simp_all
    ultimately show ?thesis by blast
  qed
qed

lemma intersectObjects_head:
  assumes "intersectObjects hits objs \<noteq> []"
  shows "(\<forall>obj \<in> set objs. \<forall>d \<in> set (hits obj). distance (intersectObjects hits objs ! 0) \<le> d)
         \<and> (\<exists>k < length objs.
               object (intersectObjects hits objs ! 0) = objs ! k
               \<and> distance (intersectObjects hits objs ! 0) \<in> set (hits (objs ! k))
               \<and> (\<forall>k' < k. \<forall>d \<in> set (hits (objs ! k')). distance (intersectObjects hits objs ! 0) < d))"
proof -
  let ?g = "\<lambda>obj. map (\<lambda>d. \<lparr>distance = d, object = obj\<rparr>) (hits obj)"
  let ?xs = "concat (map ?g objs)"
  let ?sel = "intersectObjects hits objs ! 0"
  have ne: "?xs \<noteq> []" using assms by (simp only: intersectObjects_def sort_key_Nil_iff not_False_eq_True)
  have sel: "?sel = hd (sort_key distance ?xs)"
    using assms by (simp add: intersectObjects_def hd_conv_nth)
  from hd_sort_key_first_min [OF ne, of distance] obtain pre post where
    xs: "?xs = pre @ ?sel # post"
    and pre: "\<forall>y \<in> set pre. distance ?sel < distance y"
    and post: "\<forall>y \<in> set post. distance ?sel \<le> distance y"
    unfolding sel by blast
  have all: "\<forall>y \<in> set ?xs. distance ?sel \<le> distance y"
  proof
    fix y assume "y \<in> set ?xs"
    then have "y \<in> set pre \<or> y = ?sel \<or> y \<in> set post" by (subst (asm) xs) auto
    then show "distance ?sel \<le> distance y" using pre post by auto
  qed
  have first: "\<forall>obj \<in> set objs. \<forall>d \<in> set (hits obj). distance ?sel \<le> d"
  proof (intro ballI)
    fix obj d assume "obj \<in> set objs" "d \<in> set (hits obj)"
    then have "\<lparr>distance = d, object = obj\<rparr> \<in> set ?xs" by auto
    with all have "distance ?sel \<le> distance \<lparr>distance = d, object = obj\<rparr>" by blast
    then show "distance ?sel \<le> d" by simp
  qed
  from concat_map_split [OF xs] obtain k where k: "k < length objs" "?sel \<in> set (?g (objs ! k))"
    "\<forall>k' < k. set (?g (objs ! k')) \<subseteq> set pre" by blast
  from k(2) have obj: "object ?sel = objs ! k" and dist: "distance ?sel \<in> set (hits (objs ! k))" by auto
  have "\<forall>k' < k. \<forall>d \<in> set (hits (objs ! k')). distance ?sel < d"
  proof (intro allI impI ballI)
    fix k' d assume "k' < k" "d \<in> set (hits (objs ! k'))"
    then have "\<lparr>distance = d, object = objs ! k'\<rparr> \<in> set pre" using k(3) by auto
    with pre have "distance ?sel < distance \<lparr>distance = d, object = objs ! k'\<rparr>" by blast
    then show "distance ?sel < d" by simp
  qed
  with first k(1) obj dist show ?thesis by blast
qed

lemma set_intersectObjects:
  "set (intersectObjects hits objs) = {\<lparr>distance = d, object = obj\<rparr> | obj d. obj \<in> set objs \<and> d \<in> set (hits obj)}"
  by (auto simp: intersectObjects_def)

lemma intersected_iff:
  "c \<in> set (map object (intersectObjects hits objs)) \<longleftrightarrow> c \<in> set objs \<and> hits c \<noteq> []"
proof -
  have "hits c \<noteq> [] \<longleftrightarrow> (\<exists>d. d \<in> set (hits c))" by (cases "hits c") auto
  then show ?thesis by (force simp: set_intersectObjects image_iff)
qed

lemma concat_single:
  "distinct objs \<Longrightarrow> a \<in> set objs \<Longrightarrow>
   concat (map (\<lambda>obj. map (g obj) (if obj = a then ds else [])) objs) = map (g a) ds"
proof (induction objs)
  case Nil
  then show ?case by simp
next
  case (Cons x objs)
  show ?case
  proof (cases "x = a")
    case True
    then have "a \<notin> set objs" using Cons.prems by simp
    then have "concat (map (\<lambda>obj. map (g obj) (if obj = a then ds else [])) objs) = []"
      by (induction objs) auto
    then show ?thesis using True by simp
  next
    case False
    then show ?thesis using Cons by simp
  qed
qed

lemma intersectObjects_single:
  "distinct objs \<Longrightarrow> a \<in> set objs \<Longrightarrow>
   intersectObjects (\<lambda>h. if h = a then ds else []) objs
     = sort_key distance (map (\<lambda>d. \<lparr>distance = d, object = a\<rparr>) ds)"
  unfolding intersectObjects_def
  using concat_single [of objs a "\<lambda>obj d. \<lparr>distance = d, object = obj\<rparr>" ds] by simp

lemma intersectObjects_only_hit:
  "distinct objs \<Longrightarrow> a \<in> set objs \<Longrightarrow>
   intersectObjects (only_hit a ds) objs = sort_key distance (map (\<lambda>d. \<lparr>distance = d, object = a\<rparr>) ds)"
  using intersectObjects_single [of objs a ds] by (simp add: only_hit_def [abs_def])

section \<open>The shader handle over a session\<close>

lemma shader_written: "h \<noteq> None \<Longrightarrow> shader_update t h = Some \<lparr>uTime = t\<rparr>"
  by (cases h) (simp_all add: shader_update_def)

lemma animate_jellyfishShader_kept:
  "jellyfishShader s \<noteq> None \<or> compiles f \<Longrightarrow> jellyfishShader (animate curve f s) \<noteq> None"
  by (auto simp: animate_jellyfishShader shader_written)

lemma run_jellyfishShader_kept:
  "jellyfishShader s \<noteq> None \<or> (\<exists>c \<in> set fs. compiles c) \<Longrightarrow> jellyfishShader (run curve fs s) \<noteq> None"
proof (induction fs rule: rev_induct)
  case Nil
  then show ?case by (simp add: run_def)
next
  case (snoc f fs)
  show ?case
  proof (cases "compiles f")
    case True
    then show ?thesis unfolding run_snoc by (simp add: animate_jellyfishShader_kept)
  next
    case False
    with snoc.prems have "jellyfishShader s \<noteq> None \<or> (\<exists>c \<in> set fs. compiles c)" by auto
    then have "jellyfishShader (run curve fs s) \<noteq> None" by (rule snoc.IH)
    then show ?thesis unfolding run_snoc by (simp add: animate_jellyfishShader_kept)
  qed
qed

lemma run_jellyfishShader_none:
  "jellyfishShader s = None \<Longrightarrow> \<forall>c \<in> set fs. \<not> compiles c \<Longrightarrow> jellyfishShader (run curve fs s) = None"
  by (induction fs rule: rev_induct)
     (simp_all add: run_def animate_jellyfishShader shader_update_def)

lemma run_dream_snoc: "run_dream eng random (fs @ [f]) s = animate_dream eng random f (run_dream eng random fs s)"
  by (simp add: run_dream_def)

lemma animate_heartShader_kept:
  "heartShader s \<noteq> None \<or> compiles f \<Longrightarrow> heartShader (animate_dream eng random f s) \<noteq> None"
  by (auto simp: animate_dream_heartShader shader_written)

lemma run_heartShader_kept:
  "heartShader s \<noteq> None \<or> (\<exists>c \<in> set fs. compiles c) \<Longrightarrow> heartShader (run_dream eng random fs s) \<noteq> None"
proof (induction fs rule: rev_induct)
  case Nil
  then show ?case by (simp add: run_dream_def)
next
  case (snoc f fs)
  show ?case
  proof (cases "compiles f")
    case True
    then show ?thesis unfolding run_dream_snoc by (simp add: animate_heartShader_kept)
  next
    case False
    with snoc.prems have "heartShader s \<noteq> None \<or> (\<exists>c \<in> set fs. compiles c)" by auto
    then have "heartShader (run_dream eng random fs s) \<noteq> None" by (rule snoc.IH)
    then show ?thesis unfolding run_dream_snoc by (simp add: animate_heartShader_kept)
  qed
qed

lemma run_heartShader_none:
  "heartShader s = None \<Longrightarrow> \<forall>c \<in> set fs. \<not> compiles c \<Longrightarrow> heartShader (run_dream eng random fs s) = None"
  by (induction fs rule: rev_induct)
     (simp_all add: run_dream_def animate_dream_heartShader shader_update_def)

lemma animate_jellyfish_y: "jellyfish_y (animate curve f s) = 5 + sin (elapsedTime f * 0.5) * 0.5"
proof -
  have "jellyfish_y (hover curve f t) = jellyfish_y t" for t
    by (subst hover_only_glow) simp
  then show ?thesis by (simp add: animate_def render_def Let_def)
qed

section \<open>The drift force\<close>

lemma drift_force_bounds:
  assumes "\<forall>n. 0 \<le> random n \<and> random n < 1"
  shows "\<bar>v_x (drift_force random n)\<bar> \<le> 0.05 \<and> \<bar>v_y (drift_force random n)\<bar> \<le> 0.05
         \<and> \<bar>v_z (drift_force random n)\<bar> \<le> 0.05"
proof -
  have "\<bar>(r - 0.5) * 0.1\<bar> \<le> 0.05" if "0 \<le> r" "r < 1" for r :: real
    using that unfolding abs_le_iff by (simp add: algebra_simps)
  then show ?thesis using assms by (simp add: drift_force_def)
qed

section \<open>Hover glow\<close>

lemma hover_child_glow:
  "emissiveIntensity (hover_child curve now xs c s) c' =
     (if c' = c \<and> obj_name s c = ''photography''
      then gsap_to curve now (emissiveIntensity s c) (if c \<in> set xs then 0.7 else 0) 1 DefaultEase
      else emissiveIntensity s c')"
  by (simp add: hover_child_def Let_def)

lemma hover_child_obj_name: "obj_name (hover_child curve now xs c s) = obj_name s"
  by (subst hover_child_only_glow) simp

lemma fold_hover_other:
  "c \<notin> set cs \<Longrightarrow> emissiveIntensity (fold (hover_child curve now xs) cs s) c = emissiveIntensity s c"
  by (induction cs arbitrary: s) (simp_all add: hover_child_glow)

lemma fold_hover_glow:
  assumes "distinct cs" "c \<in> set cs" "obj_name s c = ''photography''"
  shows "emissiveIntensity (fold (hover_child curve now xs) cs s) c =
           gsap_to curve now (emissiveIntensity s c) (if c \<in> set xs then 0.7 else 0) 1 DefaultEase"
  using assms
proof (induction cs arbitrary: s)
  case Nil
  then show ?case by simp
next
  case (Cons x cs)
  show ?case
  proof (cases "x = c")
    case True
    then have "c \<notin> set cs" using Cons.prems by simp
    then show ?thesis using True Cons.prems(3) by (simp add: fold_hover_other hover_child_glow)
  next
    case False
    then have "c \<in> set cs" "distinct cs" using Cons.prems by auto
    from Cons.IH [OF this(2) this(1), of "hover_child curve now xs x s"] False Cons.prems(3)
    show ?thesis by (simp add: hover_child_obj_name hover_child_glow)
  qed
qed

lemma hover_glow:
  assumes "distinct (children s)" "c \<in> set (children s)" "obj_name s c = ''photography''"
  shows "emissiveIntensity (hover curve f s) c =
           gsap_to curve (elapsedTime f) (emissiveIntensity s c)
             (if c \<in> set (interactiveObjects s) \<and> pointer_hits f c \<noteq> [] then 0.7 else 0) 1 DefaultEase"
  unfolding hover_def Let_def
  by (simp only: fold_hover_glow [OF assms] intersected_iff)

lemma animate_glow_hover:
  "emissiveIntensity (animate curve f s) = emissiveIntensity (hover curve f
      (s\<lparr>causticsOffset := (elapsedTime f * 0.1, elapsedTime f * 0.1),
         jellyfishShader := shader_update (elapsedTime f) (jellyfishShader s),
         jellyfish_y := 5 + sin (elapsedTime f * 0.5) * 0.5,
         coreLight_y := 5 + sin (elapsedTime f * 0.5) * 0.5,
         coreLight_intensity := (sin (elapsedTime f * 2.0) * 0.5 + 0.5) * 5 + 5,
         codeVents_array := vent_update (deltaTime f) (codeVents_array s),
         swarm_array := swarm_update (elapsedTime f) (swarmPosArray s) (swarm_array s)\<rparr>))"
  by (simp add: animate_def render_def Let_def)

lemma animate_glow:
  assumes "distinct (children s)" "c \<in> set (children s)" "obj_name s c = ''photography''"
  shows "emissiveIntensity (animate curve f s) c =
           gsap_to curve (elapsedTime f) (emissiveIntensity s c)
             (if c \<in> set (interactiveObjects s) \<and> pointer_hits f c \<noteq> [] then 0.7 else 0) 1 DefaultEase"
  unfolding animate_glow_hover
  by (subst hover_glow) (use assms in simp_all)

lemma animate_registry:
  "children (animate curve f s) = children s"
  "obj_name (animate curve f s) = obj_name s"
  "interactiveObjects (animate curve f s) = interactiveObjects s"
proof -
  have "children (hover curve f t) = children t" "obj_name (hover curve f t) = obj_name t"
    "interactiveObjects (hover curve f t) = interactiveObjects t" for t
    by (subst hover_only_glow, simp)+
  then show "children (animate curve f s) = children s"
    "obj_name (animate curve f s) = obj_name s"
    "interactiveObjects (animate curve f s) = interactiveObjects s"
    by (simp_all add: animate_def render_def Let_def)
qed

lemma run_registry:
  "children (run curve fs s) = children s \<and> obj_name (run curve fs s) = obj_name s
   \<and> interactiveObjects (run curve fs s) = interactiveObjects s"
  by (induction fs rule: rev_induct) (simp_all add: run_def animate_registry)

lemma run_glow_steady:
  assumes reg: "distinct (children s)" "c \<in> set (children s)" "obj_name s c = ''photography''"
    and curve: "\<forall>p. 0 < p \<and> p < 1 \<longrightarrow> 0 \<le> curve DefaultEase p \<and> curve DefaultEase p \<le> 1"
    and on: "\<forall>g \<in> set (f # fs). (pointer_hits g c \<noteq> []) = on"
    and target: "target = (if c \<in> set (interactiveObjects s) \<and> on then 0.7 else 0)"
  shows "\<exists>v. emissiveIntensity (run curve (f # fs) s) c =
            \<lparr>tw_from = v, tw_to = target, tw_start = elapsedTime (last (f # fs)),
             tw_duration = 1, tw_ease = DefaultEase\<rparr>
          \<and> min (tween_at curve (emissiveIntensity s c) (elapsedTime f)) target \<le> v
          \<and> v \<le> max (tween_at curve (emissiveIntensity s c) (elapsedTime f)) target"
  using on
proof (induction fs rule: rev_induct)
  case Nil
  then have "(pointer_hits f c \<noteq> []) = on" by simp
  then have "emissiveIntensity (animate curve f s) c =
      gsap_to curve (elapsedTime f) (emissiveIntensity s c) target 1 DefaultEase"
    unfolding animate_glow [OF reg] target by simp
  then show ?case by (simp add: run_def gsap_to_def)
next
  case (snoc g fs)
  let ?prev = "run curve (f # fs) s"
  from snoc.prems have g: "(pointer_hits g c \<noteq> []) = on"
    and rest: "\<forall>h \<in> set (f # fs). (pointer_hits h c \<noteq> []) = on" by simp_all
  from snoc.IH [OF rest] obtain v where
    P: "emissiveIntensity ?prev c =
          \<lparr>tw_from = v, tw_to = target, tw_start = elapsedTime (last (f # fs)),
           tw_duration = 1, tw_ease = DefaultEase\<rparr>"
    and v: "min (tween_at curve (emissiveIntensity s c) (elapsedTime f)) target \<le> v
          \<and> v \<le> max (tween_at curve (emissiveIntensity s c) (elapsedTime f)) target"
    by blast
  have regp: "distinct (children ?prev)" "c \<in> set (children ?prev)" "obj_name ?prev c = ''photography''"
    using reg by (simp_all add: run_registry)
  have io: "interactiveObjects ?prev = interactiveObjects s" by (simp add: run_registry)
  have step: "emissiveIntensity (animate curve g ?prev) c =
      gsap_to curve (elapsedTime g) (emissiveIntensity ?prev c) target 1 DefaultEase"
    unfolding animate_glow [OF regp] io target using g by simp
  have ease: "\<forall>p. 0 < p \<and> p < 1 \<longrightarrow> 0 \<le> curve (tw_ease (emissiveIntensity ?prev c)) p
      \<and> curve (tw_ease (emissiveIntensity ?prev c)) p \<le> 1"
    unfolding P using curve by simp
  have "min v target \<le> tween_at curve (emissiveIntensity ?prev c) (elapsedTime g)
      \<and> tween_at curve (emissiveIntensity ?prev c) (elapsedTime g) \<le> max v target"
    using tween_at_between [of curve "emissiveIntensity ?prev c" "elapsedTime g", OF ease] unfolding P by simp
  from between_trans [OF v this]
  have w: "min (tween_at curve (emissiveIntensity s c) (elapsedTime f)) target
        \<le> tween_at curve (emissiveIntensity ?prev c) (elapsedTime g)
      \<and> tween_at curve (emissiveIntensity ?prev c) (elapsedTime g)
        \<le> max (tween_at curve (emissiveIntensity s c) (elapsedTime f)) target" .
  have "run curve (f # fs @ [g]) s = animate curve g ?prev"
    using run_snoc [of curve "f # fs" g s] by simp
  then show ?case using step w by (simp add: gsap_to_def)
qed

lemma run_glow_independent:
  assumes "distinct (children s)" "c \<in> set (children s)" "obj_name s c = ''photography''"
  shows "emissiveIntensity (run curve fs (s\<lparr>controls_target := tw\<rparr>)) c = emissiveIntensity (run curve fs s) c"
proof (induction fs rule: rev_induct)
  case Nil
  show ?case by (simp add: run_def)
next
  case (snoc g fs)
  have r1: "distinct (children (run curve fs s))" "c \<in> set (children (run curve fs s))"
    "obj_name (run curve fs s) c = ''photography''"
    using assms by (simp_all add: run_registry)
  have r2: "distinct (children (run curve fs (s\<lparr>controls_target := tw\<rparr>)))"
    "c \<in> set (children (run curve fs (s\<lparr>controls_target := tw\<rparr>)))"
    "obj_name (run curve fs (s\<lparr>controls_target := tw\<rparr>)) c = ''photography''"
    using assms by (simp_all add: run_registry)
  show ?case
    unfolding run_snoc animate_glow [OF r1] animate_glow [OF r2] snoc.IH
    by (simp add: run_registry)
qed

lemma steady_frames_Suc:
  "steady_frames c ds t0 dt (Suc n) = steady_frames c ds t0 dt n @ [pointed_frame c ds dt (t0 + real n * dt)]"
  by (simp add: steady_frames_def)

lemma pointed_frame_simps:
  "elapsedTime (pointed_frame c ds dt t) = t" "pointer_hits (pointed_frame c ds dt t) c = ds"
  by (simp_all add: pointed_frame_def only_hit_def)

lemma glow_stays_off_target:
  assumes reg: "distinct (children s)" "c \<in> set (children s)" "obj_name s c = ''photography''"
    and target: "target = (if c \<in> set (interactiveObjects s) \<and> ds \<noteq> [] then 0.7 else 0)"
    and start: "tween_at curve (emissiveIntensity s c) t0 \<noteq> target"
    and dt: "0 < dt" "dt < 1" and curve: "curve DefaultEase dt \<noteq> 1"
  shows "\<exists>v. emissiveIntensity (run curve (steady_frames c ds t0 dt (Suc n)) s) c =
            \<lparr>tw_from = v, tw_to = target, tw_start = t0 + real n * dt,
             tw_duration = 1, tw_ease = DefaultEase\<rparr> \<and> v \<noteq> target"
proof (induction n)
  case 0
  have "steady_frames c ds t0 dt (Suc 0) = [pointed_frame c ds dt t0]"
    by (simp add: steady_frames_def)
  moreover have "emissiveIntensity (animate curve (pointed_frame c ds dt t0) s) c =
      gsap_to curve t0 (emissiveIntensity s c) target 1 DefaultEase"
    unfolding animate_glow [OF reg] target pointed_frame_simps by simp
  ultimately show ?case using start by (simp add: run_def gsap_to_def)
next
  case (Suc n)
  let ?prev = "run curve (steady_frames c ds t0 dt (Suc n)) s"
  let ?t = "t0 + real (Suc n) * dt"
  from Suc.IH obtain v where
    P: "emissiveIntensity ?prev c =
          \<lparr>tw_from = v, tw_to = target, tw_start = t0 + real n * dt,
           tw_duration = 1, tw_ease = DefaultEase\<rparr>" and v: "v \<noteq> target" by blast
  have regp: "distinct (children ?prev)" "c \<in> set (children ?prev)" "obj_name ?prev c = ''photography''"
    using reg by (simp_all add: run_registry)
  have io: "interactiveObjects ?prev = interactiveObjects s" by (simp add: run_registry)
  have step: "emissiveIntensity (animate curve (pointed_frame c ds dt ?t) ?prev) c =
      gsap_to curve ?t (emissiveIntensity ?prev c) target 1 DefaultEase"
    unfolding animate_glow [OF regp] io target pointed_frame_simps by simp
  have time: "?t - (t0 + real n * dt) = dt" by (simp add: algebra_simps)
  have c1: "\<not> (t0 + real n * dt) + 1 \<le> ?t" using dt by (simp add: algebra_simps)
  have c2: "\<not> ?t \<le> t0 + real n * dt" using dt by (simp add: algebra_simps)
  have "tween_at curve (emissiveIntensity ?prev c) ?t =
      lerp v target (curve DefaultEase ((?t - (t0 + real n * dt)) / 1))"
    unfolding P tween_at_def by (simp only: tween.simps c1 c2 if_False)
  then have at: "tween_at curve (emissiveIntensity ?prev c) ?t = lerp v target (curve DefaultEase dt)"
    unfolding time by (simp only: div_by_1)
  have "lerp v target (curve DefaultEase dt) \<noteq> target" using v curve by (rule lerp_off_target)
  with at have off: "tween_at curve (emissiveIntensity ?prev c) ?t \<noteq> target" by simp
  show ?case
    unfolding steady_frames_Suc [of c ds t0 dt "Suc n"] run_snoc step
    using off by (simp add: gsap_to_def)
qed

lemma gsap_default_ease_bounds:
  "\<forall>p. 0 < p \<and> p < 1 \<longrightarrow> 0 \<le> gsap_curve DefaultEase p \<and> gsap_curve DefaultEase p \<le> 1"
  by (simp add: gsap_curve_def power_le_one)

lemma click_glow_untouched:
  "emissiveIntensity (case click curve now hits s of Done s' \<Rightarrow> s' | TypeError s' \<Rightarrow> s') = emissiveIntensity s"
  by (simp add: click_def write_info_def Let_def split: option.splits)

lemma lookup_entry: "table n = Some fd \<Longrightarrow> lookup table n = Entry fd"
  by (simp add: lookup_def)

lemma lookup_undefined:
  "table n = None \<Longrightarrow> n \<notin> set object_prototype_names \<Longrightarrow> lookup table n = Undefined"
  by (simp add: lookup_def)

lemma entry_fields:
  "truthy (Entry fd)" "position_of (Entry fd) = Some (fp_position fd)"
  "textContent (title_of (Entry fd)) = title fd"
  "textContent (description_of (Entry fd)) = description fd"
  by (simp_all add: truthy_def position_of_def title_of_def description_of_def textContent_def)

section \<open>Claims about the particle fields\<close>

text \<open>
  C1 (amended).  After any number of frames of the deep-sea scene, every component of the
  swarm buffer with axis 0 (x) equals \<open>base + sin (t + base) * 2\<close> and every component
  with axis 1 (y) equals \<open>base + cos (t + base) * 2\<close>, where \<open>t\<close> is the elapsed time
  of the last frame and \<open>base\<close> the entry of \<open>swarmPosArray\<close> at the same index; what
  the buffer held before plays no part, so nothing accumulates.  The components with
  axis 2 (z) are as they were at the start, \<open>swarmPosArray\<close> is never written, and the
  position buffer of the river of the dream scene is not recomputed at all.
\<close>

theorem swarm_recomputed_from_time_and_base:
  assumes "length (swarm_array s) = length (swarmPosArray s)" and "i < length (swarmPosArray s)"
  shows "swarm_array (run curve (fs @ [f]) s) ! i =
           (if i mod 3 = 0 then swarmPosArray s ! i + sin (elapsedTime f + swarmPosArray s ! i) * 2
            else if i mod 3 = 1 then swarmPosArray s ! i + cos (elapsedTime f + swarmPosArray s ! i) * 2
            else swarm_array s ! i)
         \<and> swarmPosArray (run curve (fs @ [f]) s) = swarmPosArray s
         \<and> posArray (particleMesh (run_dream eng random (gs @ [g]) d)) = posArray (particleMesh d)"
proof -
  have "i < length (swarm_array (run curve fs s))" using assms by (simp add: run_swarm_length)
  moreover have "i mod 3 \<noteq> 0 \<Longrightarrow> i mod 3 \<noteq> 1 \<Longrightarrow> i mod 3 = 2" by presburger
  ultimately have "swarm_array (run curve (fs @ [f]) s) ! i =
           (if i mod 3 = 0 then swarmPosArray s ! i + sin (elapsedTime f + swarmPosArray s ! i) * 2
            else if i mod 3 = 1 then swarmPosArray s ! i + cos (elapsedTime f + swarmPosArray s ! i) * 2
            else swarm_array s ! i)"
    using assms by (simp add: run_snoc animate_swarm_array swarm_update_nth run_swarmPosArray run_swarm_z)
  then show ?thesis by (simp add: run_swarmPosArray run_dream_posArray)
qed

text \<open>An instance: base \<open>[0, 0, 0]\<close>, two frames, the last at time 0; the y component is 2.\<close>

theorem swarm_recomputed_witness:
  "length (swarm_array (main_scene [] [0, 0, 0] [] [])) = length (swarmPosArray (main_scene [] [0, 0, 0] [] []))
   \<and> 1 < length (swarmPosArray (main_scene [] [0, 0, 0] [] []))
   \<and> swarm_array (run gsap_curve ([quiet_frame 1 1] @ [quiet_frame 0 0]) (main_scene [] [0, 0, 0] [] [])) ! 1 = 2"
  using swarm_recomputed_from_time_and_base
    [of "main_scene [] [0, 0, 0] [] []" 1 gsap_curve "[quiet_frame 1 1]" "quiet_frame 0 0"]
  by (simp add: main_scene_def quiet_frame_def)

text \<open>
  C1 as stated fails: with base \<open>[0, 0, 0]\<close> and a frame at time 0 the z component of
  the swarm stays 0, while \<open>base + 2 * cos (t + base)\<close> is 2; and a frame of the dream
  scene at time \<open>pi / 2\<close> leaves the x component of the river at 0, while
  \<open>base + 2 * sin (t + base)\<close> is 2.
\<close>

theorem swarm_z_not_cosine:
  "swarm_array (animate gsap_curve (quiet_frame 0 0) (main_scene [] [0, 0, 0] [] [])) ! 2
     \<noteq> swarmPosArray (main_scene [] [0, 0, 0] [] []) ! 2
         + 2 * cos (elapsedTime (quiet_frame 0 0) + swarmPosArray (main_scene [] [0, 0, 0] [] []) ! 2)
   \<and> posArray (particleMesh (animate_dream example_engine example_random (quiet_frame 0 (pi / 2))
        (dream_scene example_bodies [0, 0, 0] [] []))) ! 0
     \<noteq> [0, 0, 0] ! 0 + 2 * sin (elapsedTime (quiet_frame 0 (pi / 2)) + [0, 0, 0] ! 0)"
  by (simp add: animate_swarm_array swarm_update_nth main_scene_def quiet_frame_def
      animate_dream_particleMesh river_update_def dream_scene_def)

text \<open>
  C2 (amended).  For a y component (index \<open>i\<close> with \<open>i mod 3 = 1\<close>) of the vent buffer that
  is not negative, and frames with \<open>deltaTime \<ge> 0\<close>: a frame stores the float32 nearest
  to \<open>(y + deltaTime * 2) mod 20\<close> (the sum rounded to a double), and after any number of
  such frames the stored value lies in \<open>[0, 20]\<close>, however many times the sum wraps.
\<close>

theorem vent_wraps_within_closed_range:
  assumes "i < length (codeVents_array s)" and "i mod 3 = 1"
    and "0 \<le> codeVents_array s ! i" and "\<forall>g \<in> set (fs @ [f]). 0 \<le> deltaTime g"
  shows "codeVents_array (animate curve f s) ! i =
           fround (to_double (codeVents_array s ! i + deltaTime f * 2)
                     - 20 * of_int \<lfloor>to_double (codeVents_array s ! i + deltaTime f * 2) / 20\<rfloor>)
         \<and> 0 \<le> codeVents_array (run curve (fs @ [f]) s) ! i
         \<and> codeVents_array (run curve (fs @ [f]) s) ! i \<le> 20"
proof -
  from assms(4) have dt: "0 \<le> deltaTime f" and dts: "\<forall>g \<in> set fs. 0 \<le> deltaTime g" by simp_all
  have prev: "0 \<le> codeVents_array (run curve fs s) ! i"
    using assms(1-3) dts by (rule run_vent_nonneg)
  have len: "i < length (codeVents_array (run curve fs s))" using assms(1) by (simp add: run_vent_length)
  from vent_step [OF assms(1-3) dt] vent_step [OF len assms(2) prev dt] show ?thesis
    by (simp add: run_snoc animate_codeVents_array)
qed

text \<open>An instance just below the ceiling: \<open>y = 19.5\<close>, \<open>deltaTime = 30\<close>, three wraps, \<open>y' = 19.5\<close>.\<close>

theorem vent_wraps_witness:
  "1 < length (codeVents_array (main_scene [0, 39 / 2, 0] [] [] []))
   \<and> (1::nat) mod 3 = 1
   \<and> 0 \<le> codeVents_array (main_scene [0, 39 / 2, 0] [] [] []) ! 1
   \<and> 0 \<le> deltaTime (quiet_frame 30 30)
   \<and> codeVents_array (animate gsap_curve (quiet_frame 30 30) (main_scene [0, 39 / 2, 0] [] [] [])) ! 1 = 39 / 2
   \<and> codeVents_array (run gsap_curve ([] @ [quiet_frame 30 30]) (main_scene [0, 39 / 2, 0] [] [] [])) ! 1 \<le> 20"
proof -
  let ?s = "main_scene [0, 39 / 2, 0] [] [] []"
  have h: "1 < length (codeVents_array ?s)" "(1::nat) mod 3 = 1" "0 \<le> codeVents_array ?s ! 1"
    "\<forall>g \<in> set ([] @ [quiet_frame 30 30]). 0 \<le> deltaTime g"
    by (simp_all add: main_scene_def quiet_frame_def)
  have v: "codeVents_array (animate gsap_curve (quiet_frame 30 30) ?s) ! 1 = 39 / 2"
    by (simp add: animate_codeVents_array vent_update_nth main_scene_def quiet_frame_def
        to_double_159_2 js_rem_159_2 fround_39_2)
  from vent_wraps_within_closed_range [OF h, of gsap_curve] h(1-3) v show ?thesis
    by (simp add: quiet_frame_def)
qed

text \<open>
  C2 as stated fails at the upper bound: with \<open>y = 19.5\<close> and
  \<open>deltaTime = 0.25 - 2 ^ -40\<close> the remainder is \<open>20 - 2 ^ -39\<close>, and the float32 nearest to
  it, which is what the buffer receives, is 20.
\<close>

theorem vent_stores_the_ceiling:
  "codeVents_array (animate gsap_curve (quiet_frame (1 / 4 - 1 / 2 ^ 40) 1)
      (main_scene [0, 39 / 2, 0] [] [] [])) ! 1 = 20
   \<and> \<not> codeVents_array (animate gsap_curve (quiet_frame (1 / 4 - 1 / 2 ^ 40) 1)
      (main_scene [0, 39 / 2, 0] [] [] [])) ! 1 < 20"
proof -
  have sum: "(39 / 2 + (1 / 4 - 1 / 2 ^ 40) * 2 :: real) = 20 - 1 / 2 ^ 39" by simp
  have "\<lfloor>(20 - 1 / 2 ^ 39) / 20 :: real\<rfloor> = 0" by (rule floor_unique) simp_all
  then have rem: "js_rem (20 - 1 / 2 ^ 39) 20 = 20 - 1 / 2 ^ 39"
    by (simp add: js_rem_def trunc_def)
  have "vent_update (1 / 4 - 1 / 2 ^ 40) [0, 39 / 2, 0] ! 1 =
      fround (js_rem (to_double (39 / 2 + (1 / 4 - 1 / 2 ^ 40) * 2)) 20)"
    by (subst vent_update_nth) simp_all
  then have "vent_update (1 / 4 - 1 / 2 ^ 40) [0, 39 / 2, 0] ! 1 = 20"
    by (simp only: sum to_double_below_20 rem fround_rounds_up_to_20)
  then show ?thesis
    by (simp add: animate_codeVents_array main_scene_def quiet_frame_def)
qed

section \<open>Claims about clicks\<close>

text \<open>
  C3.  A click whose first intersection is an object whose name has a focus point, on a
  page that has both info elements, returns normally with the title and the description
  of that focus point written and with a tween of \<open>controls.target\<close> towards the focus
  point's position started: at the time of the click the target is still where it was
  (the text is written at the start of the transition, not at its end), and from the
  duration on (2.5 s in main.js, 2 s in part_000) the target equals the focus point's
  position.  The frames of main.js leave that tween alone.  The handler of part_000 also
  starts the tween of the depth-of-field focus.
\<close>

theorem click_starts_transition_and_writes_text:
  assumes "intersectObjects hits (interactiveObjects s) \<noteq> []"
    and "focusPoints s (obj_name s (object (intersectObjects hits (interactiveObjects s) ! 0))) = Some fd"
    and "info_title s \<noteq> None" and "info_description s \<noteq> None"
    and "intersectObjects hits (interactiveObjects d) \<noteq> []"
    and "focusPoints d (obj_name d (object (intersectObjects hits (interactiveObjects d) ! 0))) = Some fd'"
    and "info_title d \<noteq> None" and "info_description d \<noteq> None"
  shows "(let target = gsap_to3 curve now (controls_target s) (fp_position fd) 2.5 Power3InOut
          in click curve now hits s =
               Done (s\<lparr>controls_target := target,
                       info_title := Some (title fd),
                       info_description := Some (description fd)\<rparr>)
             \<and> tween_at3 curve target now = tween_at3 curve (controls_target s) now
             \<and> (\<forall>time. now + 2.5 \<le> time \<longrightarrow> tween_at3 curve target time = fp_position fd)
             \<and> (\<forall>fs. controls_target
                   (run curve fs (s\<lparr>controls_target := target,
                                     info_title := Some (title fd),
                                     info_description := Some (description fd)\<rparr>)) = target))
         \<and> (let target = gsap_to3 curve now (controls_target d) (fp_position fd') 2 Power3InOut
             in click_dream curve now camera hits d =
                  Done (d\<lparr>controls_target := target,
                          bokeh_focus := gsap_to curve now (bokeh_focus d)
                             (distanceTo (tween_at3 curve (controls_target d) now) camera - 3) 2 Power3InOut,
                          info_title := Some (title fd'),
                          info_description := Some (description fd')\<rparr>)
                \<and> tween_at3 curve target now = tween_at3 curve (controls_target d) now
                \<and> (\<forall>time. now + 2 \<le> time \<longrightarrow> tween_at3 curve target time = fp_position fd'))"
proof -
  have main: "click curve now hits s =
      Done (s\<lparr>controls_target := gsap_to3 curve now (controls_target s) (fp_position fd) 2.5 Power3InOut,
              info_title := Some (title fd), info_description := Some (description fd)\<rparr>)"
    using assms(1,3,4) lookup_entry [of "focusPoints s", OF assms(2)]
    by (auto simp: click_def Let_def write_info_def entry_fields spread_to_def)
  have dream: "click_dream curve now camera hits d =
      Done (d\<lparr>controls_target := gsap_to3 curve now (controls_target d) (fp_position fd') 2 Power3InOut,
              bokeh_focus := gsap_to curve now (bokeh_focus d)
                 (distanceTo (tween_at3 curve (controls_target d) now) camera - 3) 2 Power3InOut,
              info_title := Some (title fd'), info_description := Some (description fd')\<rparr>)"
    using assms(5,7,8) lookup_entry [of "focusPoints d", OF assms(6)]
    by (auto simp: click_dream_def Let_def write_info_def entry_fields spread_to_def
        tween_at3_gsap_to3_start)
  show ?thesis
    unfolding Let_def main dream
    by (simp add: tween_at3_gsap_to3_start tween_at3_gsap_to3_end run_controls_target)
qed

text \<open>
  An instance: a click on the jellyfish of main.js (tag \<open>graphics\<close>), and a click on a
  glass pane of part_000.
\<close>

theorem click_starts_transition_witness:
  "click gsap_curve 0 (only_hit 3 [22, 28]) (main_scene [] [] ''Welcome'' ''Explore'') =
     Done ((main_scene [] [] ''Welcome'' ''Explore'')
       \<lparr>controls_target := gsap_to3 gsap_curve 0 (still \<lparr>v_x = 0, v_y = 2, v_z = 0\<rparr>)
                             \<lparr>v_x = 0, v_y = 5, v_z = 10\<rparr> 2.5 Power3InOut,
        info_title := Some ''The Anomaly.'',
        info_description := Some ''The heart of the abyss. A creature of pure light and impossible form. It bends pixels to its will.''\<rparr>)
   \<and> tween_at3 gsap_curve (gsap_to3 gsap_curve 0 (still \<lparr>v_x = 0, v_y = 2, v_z = 0\<rparr>)
                             \<lparr>v_x = 0, v_y = 5, v_z = 10\<rparr> 2.5 Power3InOut) 2.5 = \<lparr>v_x = 0, v_y = 5, v_z = 10\<rparr>
   \<and> (\<exists>d'. click_dream gsap_curve 0 \<lparr>v_x = 10, v_y = 5, v_z = 20\<rparr> (only_hit 3 [22, 28])
              (dream_scene example_bodies [] ''Welcome'' ''Explore'') = Done d'
        \<and> info_title d' = Some ''Frozen Moments.''
        \<and> tween_at3 gsap_curve (controls_target d') 2 = \<lparr>v_x = 10, v_y = 2, v_z = - 5\<rparr>)"
proof -
  let ?s = "main_scene [] [] ''Welcome'' ''Explore''"
  let ?d = "dream_scene example_bodies [] ''Welcome'' ''Explore''"
  let ?hits = "only_hit 3 [22, 28]"
  have im: "intersectObjects ?hits (interactiveObjects ?s) = [\<lparr>distance = 22, object = 3\<rparr>, \<lparr>distance = 28, object = 3\<rparr>]"
    by (subst intersectObjects_only_hit) (simp_all add: main_scene_def)
  have id: "intersectObjects ?hits (interactiveObjects ?d) = [\<lparr>distance = 22, object = 3\<rparr>, \<lparr>distance = 28, object = 3\<rparr>]"
    by (subst intersectObjects_only_hit) (simp_all add: dream_scene_def)
  have h: "intersectObjects ?hits (interactiveObjects ?s) \<noteq> []"
    "focusPoints ?s (obj_name ?s (object (intersectObjects ?hits (interactiveObjects ?s) ! 0)))
       = Some \<lparr>fp_position = \<lparr>v_x = 0, v_y = 5, v_z = 10\<rparr>, title = ''The Anomaly.'',
               description = ''The heart of the abyss. A creature of pure light and impossible form. It bends pixels to its will.''\<rparr>"
    "info_title ?s \<noteq> None" "info_description ?s \<noteq> None"
    unfolding im by (simp_all add: main_scene_def main_names_def main_focusPoints_def)
  have hd: "intersectObjects ?hits (interactiveObjects ?d) \<noteq> []"
    "focusPoints ?d (obj_name ?d (object (intersectObjects ?hits (interactiveObjects ?d) ! 0)))
       = Some \<lparr>fp_position = \<lparr>v_x = 10, v_y = 2, v_z = - 5\<rparr>, title = ''Frozen Moments.'',
               description = ''Memories trapped in glass, drifting through the subconscious. Each one a story.''\<rparr>"
    "info_title ?d \<noteq> None" "info_description ?d \<noteq> None"
    unfolding id by (simp_all add: dream_scene_def dream_names_def dream_focusPoints_def)
  from click_starts_transition_and_writes_text [OF h hd, of gsap_curve 0 "\<lparr>v_x = 10, v_y = 5, v_z = 20\<rparr>"]
  show ?thesis
    unfolding Let_def by (simp add: main_scene_def dream_scene_def)
qed

text \<open>
  C4.  When the pointer ray meets some interactive object, the intersection the click
  handler takes (\<open>intersects[0]\<close>) is at the smallest ray parameter among all
  intersections with all interactive objects, and it belongs to the first registered
  object that has an intersection at that parameter: every object registered before it
  is met only at strictly greater parameters.  The handler's result depends on the
  intersections through that one object only.
\<close>

theorem nearest_hit_first_registered:
  assumes "intersectObjects hits (interactiveObjects s) \<noteq> []"
  shows "let selected = intersectObjects hits (interactiveObjects s) ! 0 in
           (\<forall>obj \<in> set (interactiveObjects s). \<forall>d \<in> set (hits obj). distance selected \<le> d)
           \<and> (\<exists>k < length (interactiveObjects s).
                 object selected = interactiveObjects s ! k
                 \<and> distance selected \<in> set (hits (interactiveObjects s ! k))
                 \<and> (\<forall>k' < k. \<forall>d \<in> set (hits (interactiveObjects s ! k')). distance selected < d))
           \<and> click curve now hits s =
               (let focusData = lookup (focusPoints s) (obj_name s (object selected)) in
                if truthy focusData then
                  write_info focusData
                    (s\<lparr>controls_target :=
                         spread_to curve now (controls_target s) (position_of focusData) 2.5 Power3InOut\<rparr>)
                else Done s)"
proof -
  have "click curve now hits s =
      (let focusData = lookup (focusPoints s)
                         (obj_name s (object (intersectObjects hits (interactiveObjects s) ! 0))) in
       if truthy focusData then
         write_info focusData
           (s\<lparr>controls_target :=
                spread_to curve now (controls_target s) (position_of focusData) 2.5 Power3InOut\<rparr>)
       else Done s)"
    using assms by (simp only: click_def Let_def length_greater_0_conv not_False_eq_True if_True)
  with intersectObjects_head [OF assms] show ?thesis unfolding Let_def by blast
qed

text \<open>An instance: jellyfish and first tablet tie at 22; the jellyfish, registered first, is taken.\<close>

theorem nearest_hit_witness:
  "intersectObjects tied_hits (interactiveObjects (main_scene [] [] [] [])) \<noteq> []
   \<and> intersectObjects tied_hits (interactiveObjects (main_scene [] [] [] [])) ! 0 = \<lparr>distance = 22, object = 3\<rparr>
   \<and> tied_hits 5 = [22]
   \<and> interactiveObjects (main_scene [] [] [] []) = [3, 5, 6, 7, 8, 9]"
proof -
  have eq: "intersectObjects tied_hits (interactiveObjects (main_scene [] [] [] []))
      = [\<lparr>distance = 22, object = 3\<rparr>, \<lparr>distance = 22, object = 5\<rparr>,
         \<lparr>distance = 28, object = 3\<rparr>, \<lparr>distance = 40, object = 9\<rparr>]"
    by (simp add: intersectObjects_def main_scene_def tied_hits_def)
  then have ne: "intersectObjects tied_hits (interactiveObjects (main_scene [] [] [] [])) \<noteq> []" by simp
  from nearest_hit_first_registered [OF ne, of gsap_curve 0] ne eq show ?thesis
    unfolding Let_def by (simp add: tied_hits_def main_scene_def)
qed

text \<open>
  The guard \<^verbatim>\<open>if (focusData)\<close> of both handlers: a click whose first intersection is an
  object whose name has no focus point and is not the name of a member that the table
  inherits returns normally and leaves the whole state as it was: title, description
  and camera target are unchanged, and no exception is raised.
\<close>

theorem click_guard_ignores_unknown_tag:
  "(intersectObjects hits (interactiveObjects s) \<noteq> []
      \<and> focusPoints s (obj_name s (object (intersectObjects hits (interactiveObjects s) ! 0))) = None
      \<and> obj_name s (object (intersectObjects hits (interactiveObjects s) ! 0)) \<notin> set object_prototype_names
    \<longrightarrow> click curve now hits s = Done s)
   \<and> (intersectObjects hits (interactiveObjects d) \<noteq> []
      \<and> focusPoints d (obj_name d (object (intersectObjects hits (interactiveObjects d) ! 0))) = None
      \<and> obj_name d (object (intersectObjects hits (interactiveObjects d) ! 0)) \<notin> set object_prototype_names
    \<longrightarrow> click_dream curve now camera hits d = Done d)"
  by (simp add: click_def click_dream_def Let_def lookup_undefined truthy_def)

text \<open>An instance: the jellyfish, or a glass pane, carrying the tag \<open>decoration\<close>.\<close>

theorem click_guard_instance:
  "intersectObjects (only_hit 3 [22, 28]) (interactiveObjects mistagged_scene) \<noteq> []
   \<and> focusPoints mistagged_scene (obj_name mistagged_scene
        (object (intersectObjects (only_hit 3 [22, 28]) (interactiveObjects mistagged_scene) ! 0))) = None
   \<and> obj_name mistagged_scene
        (object (intersectObjects (only_hit 3 [22, 28]) (interactiveObjects mistagged_scene) ! 0))
        \<notin> set object_prototype_names
   \<and> click gsap_curve 0 (only_hit 3 [22, 28]) mistagged_scene = Done mistagged_scene
   \<and> click_dream gsap_curve 0 \<lparr>v_x = 10, v_y = 5, v_z = 20\<rparr> (only_hit 3 [22, 28]) mistagged_dream
        = Done mistagged_dream"
proof -
  have im: "intersectObjects (only_hit 3 [22, 28]) (interactiveObjects mistagged_scene)
      = [\<lparr>distance = 22, object = 3\<rparr>, \<lparr>distance = 28, object = 3\<rparr>]"
    by (subst intersectObjects_only_hit) (simp_all add: mistagged_scene_def main_scene_def)
  have id: "intersectObjects (only_hit 3 [22, 28]) (interactiveObjects mistagged_dream)
      = [\<lparr>distance = 22, object = 3\<rparr>, \<lparr>distance = 28, object = 3\<rparr>]"
    by (subst intersectObjects_only_hit) (simp_all add: mistagged_dream_def dream_scene_def)
  have a: "intersectObjects (only_hit 3 [22, 28]) (interactiveObjects mistagged_scene) \<noteq> []
      \<and> focusPoints mistagged_scene (obj_name mistagged_scene
        (object (intersectObjects (only_hit 3 [22, 28]) (interactiveObjects mistagged_scene) ! 0))) = None
      \<and> obj_name mistagged_scene
        (object (intersectObjects (only_hit 3 [22, 28]) (interactiveObjects mistagged_scene) ! 0))
        \<notin> set object_prototype_names"
    unfolding im
    by (simp add: mistagged_scene_def main_scene_def main_focusPoints_def object_prototype_names_def)
  have b: "intersectObjects (only_hit 3 [22, 28]) (interactiveObjects mistagged_dream) \<noteq> []
      \<and> focusPoints mistagged_dream (obj_name mistagged_dream
        (object (intersectObjects (only_hit 3 [22, 28]) (interactiveObjects mistagged_dream) ! 0))) = None
      \<and> obj_name mistagged_dream
        (object (intersectObjects (only_hit 3 [22, 28]) (interactiveObjects mistagged_dream) ! 0))
        \<notin> set object_prototype_names"
    unfolding id
    by (simp add: mistagged_dream_def dream_scene_def dream_focusPoints_def object_prototype_names_def)
  from click_guard_ignores_unknown_tag
    [of "only_hit 3 [22, 28]" mistagged_scene gsap_curve 0 mistagged_dream "\<lparr>v_x = 10, v_y = 5, v_z = 20\<rparr>"]
    a b show ?thesis by blast
qed


section \<open>Claims about the shader uniform and the physics bridge\<close>

text \<open>
  C7.  While the shader handle of the material has not been captured (no render has
  compiled its program yet), every frame leaves it unset and runs to its end (the
  statements after the skipped update take effect); once a render has compiled the
  program, every later frame writes its elapsed time into the time uniform, and the
  uniform holds that value at the end of every such frame whose own render does not
  compile the program again (a render that compiles resets the uniform to 0 after the
  frame has written it).  This holds for the jellyfish material of main.js and the
  heart material of part_000.
\<close>

theorem shader_time_skipped_until_captured:
  "(jellyfishShader s = None \<and> (\<forall>c \<in> set fs. \<not> compiles c) \<longrightarrow>
      jellyfishShader (run curve fs s) = None
      \<and> jellyfish_y (run curve (fs @ [g]) s) = 5 + sin (elapsedTime g * 0.5) * 0.5)
   \<and> ((\<exists>c \<in> set fs. compiles c) \<and> \<not> compiles g \<longrightarrow>
      jellyfishShader (run curve (fs @ [g]) s) = Some \<lparr>uTime = elapsedTime g\<rparr>)
   \<and> (heartShader d = None \<and> (\<forall>c \<in> set fs. \<not> compiles c) \<longrightarrow>
      heartShader (run_dream eng random fs d) = None
      \<and> rotation_y (particleMesh (run_dream eng random (fs @ [g]) d)) = elapsedTime g * 0.05)
   \<and> ((\<exists>c \<in> set fs. compiles c) \<and> \<not> compiles g \<longrightarrow>
      heartShader (run_dream eng random (fs @ [g]) d) = Some \<lparr>uTime = elapsedTime g\<rparr>)"
proof -
  have a: "jellyfishShader (run curve (fs @ [g]) s) = Some \<lparr>uTime = elapsedTime g\<rparr>"
    if "\<exists>c \<in> set fs. compiles c" "\<not> compiles g"
  proof -
    have "jellyfishShader (run curve fs s) \<noteq> None" using that(1) by (simp add: run_jellyfishShader_kept)
    then show ?thesis using that(2) by (simp add: run_snoc animate_jellyfishShader shader_written)
  qed
  have b: "heartShader (run_dream eng random (fs @ [g]) d) = Some \<lparr>uTime = elapsedTime g\<rparr>"
    if "\<exists>c \<in> set fs. compiles c" "\<not> compiles g"
  proof -
    have "heartShader (run_dream eng random fs d) \<noteq> None" using that(1) by (simp add: run_heartShader_kept)
    then show ?thesis using that(2) by (simp add: run_dream_snoc animate_dream_heartShader shader_written)
  qed
  have c: "jellyfish_y (run curve (fs @ [g]) s) = 5 + sin (elapsedTime g * 0.5) * 0.5"
    by (simp only: run_snoc animate_jellyfish_y)
  have e: "rotation_y (particleMesh (run_dream eng random (fs @ [g]) d)) = elapsedTime g * 0.05"
    by (simp add: run_dream_snoc animate_dream_particleMesh river_update_def)
  show ?thesis
    using a b c e run_jellyfishShader_none [of s fs curve] run_heartShader_none [of d fs eng random]
    by blast
qed

text \<open>An instance: one frame without compilation; a compiling frame followed by a frame at time 2.\<close>

theorem shader_time_witness:
  "jellyfishShader (main_scene [] [] [] []) = None
   \<and> \<not> compiles (quiet_frame 1 1)
   \<and> jellyfishShader (run gsap_curve [quiet_frame 1 1] (main_scene [] [] [] [])) = None
   \<and> compiles (compiling_frame 1 1) \<and> \<not> compiles (quiet_frame 1 2)
   \<and> jellyfishShader (run gsap_curve ([compiling_frame 1 1] @ [quiet_frame 1 2]) (main_scene [] [] [] []))
        = Some \<lparr>uTime = 2\<rparr>
   \<and> heartShader (run_dream example_engine example_random ([compiling_frame 1 1] @ [quiet_frame 1 2])
        (dream_scene example_bodies [] [] [])) = Some \<lparr>uTime = 2\<rparr>"
proof -
  have a: "jellyfishShader (main_scene [] [] [] []) = None" "\<forall>c \<in> set [quiet_frame 1 1]. \<not> compiles c"
    by (simp_all add: main_scene_def quiet_frame_def)
  have b: "\<exists>c \<in> set [compiling_frame 1 1]. compiles c" "\<not> compiles (quiet_frame 1 2)"
    "elapsedTime (quiet_frame 1 2) = 2"
    by (simp_all add: compiling_frame_def quiet_frame_def)
  from shader_time_skipped_until_captured
    [of "main_scene [] [] [] []" "[quiet_frame 1 1]" gsap_curve "quiet_frame 1 2"
        "dream_scene example_bodies [] [] []" example_engine example_random]
    shader_time_skipped_until_captured
    [of "main_scene [] [] [] []" "[compiling_frame 1 1]" gsap_curve "quiet_frame 1 2"
        "dream_scene example_bodies [] [] []" example_engine example_random]
    a b show ?thesis by (simp add: quiet_frame_def compiling_frame_def)
qed

text \<open>
  The physics bridge.  In a frame of part_000, for every pair of \<open>objectsToUpdate\<close>: the body
  ends as the stepped body with the drift force applied; the three components of the
  force are \<open>(r - 0.5) * 0.1\<close> for three successive calls \<open>r\<close> of \<open>Math.random()\<close>, each
  call used once, hence each component within \<open>[-0.05, 0.05]\<close>; at the end of the frame
  the mesh has the position and the orientation of its body; and the bodies do not
  depend on what the mesh transforms were.  The point passed to \<open>applyForce\<close> is the
  body's own position vector.  The engine is a parameter, of which only this is assumed:
  applying a force does not move or turn a body.
\<close>

theorem drift_applied_and_pose_copied_one_way:
  assumes "distinct (map fst (objectsToUpdate s))" and "distinct (map snd (objectsToUpdate s))"
    and "k < length (objectsToUpdate s)"
    and "\<forall>n. 0 \<le> random n \<and> random n < 1"
    and "\<forall>f p b. position (applyForce eng f p b) = position b \<and> quaternion (applyForce eng f p b) = quaternion b"
  shows "let mesh = fst (objectsToUpdate s ! k);
             b = snd (objectsToUpdate s ! k);
             stepped = world_step eng (1 / 60) (deltaTime f) 3 (bodies s) b;
             n = rng_calls s + 3 * k;
             fx = (random n - 0.5) * 0.1;
             fy = (random (n + 1) - 0.5) * 0.1;
             fz = (random (n + 2) - 0.5) * 0.1;
             s' = animate_dream eng random f s
         in bodies s' b = applyForce eng \<lparr>v_x = fx, v_y = fy, v_z = fz\<rparr> (position stepped) stepped
            \<and> \<bar>fx\<bar> \<le> 0.05 \<and> \<bar>fy\<bar> \<le> 0.05 \<and> \<bar>fz\<bar> \<le> 0.05
            \<and> rng_calls s' = rng_calls s + 3 * length (objectsToUpdate s)
            \<and> mesh_position (meshes s' mesh) = position (bodies s' b)
            \<and> mesh_quaternion (meshes s' mesh) = quaternion (bodies s' b)
            \<and> (\<forall>ms. bodies (animate_dream eng random f (s\<lparr>meshes := ms\<rparr>)) = bodies s')"
proof -
  let ?s1 = "s\<lparr>bodies := world_step eng (1 / 60) (deltaTime f) 3 (bodies s)\<rparr>"
  have d1: "distinct (map snd (objectsToUpdate ?s1))" "distinct (map fst (objectsToUpdate ?s1))"
    "k < length (objectsToUpdate ?s1)" using assms by simp_all
  have b: "bodies (animate_dream eng random f s) (snd (objectsToUpdate s ! k)) =
        applyForce eng (drift_force random (rng_calls s + 3 * k))
          (position (world_step eng (1 / 60) (deltaTime f) 3 (bodies s) (snd (objectsToUpdate s ! k))))
          (world_step eng (1 / 60) (deltaTime f) 3 (bodies s) (snd (objectsToUpdate s ! k)))"
    using fold_drift_nth [OF d1(1) d1(3), of eng random] by (simp add: animate_dream_bodies)
  have m: "meshes (animate_dream eng random f s) (fst (objectsToUpdate s ! k)) =
        (meshes s (fst (objectsToUpdate s ! k)))
          \<lparr>mesh_position := position (world_step eng (1 / 60) (deltaTime f) 3 (bodies s) (snd (objectsToUpdate s ! k))),
           mesh_quaternion := quaternion (world_step eng (1 / 60) (deltaTime f) 3 (bodies s) (snd (objectsToUpdate s ! k)))\<rparr>"
    using fold_sync_mesh_nth [OF d1(2) d1(3)] by (simp add: animate_dream_meshes)
  have i: "bodies (animate_dream eng random f (s\<lparr>meshes := ms\<rparr>)) = bodies (animate_dream eng random f s)" for ms
  proof -
    have "bodies (fold (drift eng random) (objectsToUpdate s)
            (s\<lparr>meshes := ms, bodies := world_step eng (1 / 60) (deltaTime f) 3 (bodies s)\<rparr>))
        = bodies (fold (drift eng random) (objectsToUpdate s)
            (s\<lparr>bodies := world_step eng (1 / 60) (deltaTime f) 3 (bodies s)\<rparr>))"
      by (rule fold_drift_cong) simp_all
    then show ?thesis by (simp add: animate_dream_bodies)
  qed
  have r: "rng_calls (animate_dream eng random f s) = rng_calls s + 3 * length (objectsToUpdate s)"
    by (rule animate_dream_rng_calls)
  have f: "drift_force random (rng_calls s + 3 * k) =
      \<lparr>v_x = (random (rng_calls s + 3 * k) - 0.5) * 0.1,
       v_y = (random (rng_calls s + 3 * k + 1) - 0.5) * 0.1,
       v_z = (random (rng_calls s + 3 * k + 2) - 0.5) * 0.1\<rparr>"
    by (simp add: drift_force_def)
  show ?thesis
    unfolding Let_def
    using drift_force_bounds [OF assms(4), of "rng_calls s + 3 * k", unfolded f] assms(5)
    by (simp add: b [unfolded f] m i r)
qed

text \<open>An instance: the second pane of the scene, with the example engine.\<close>

theorem drift_witness:
  "distinct (map fst (objectsToUpdate (dream_scene example_bodies [] [] [])))
   \<and> distinct (map snd (objectsToUpdate (dream_scene example_bodies [] [] [])))
   \<and> 1 < length (objectsToUpdate (dream_scene example_bodies [] [] []))
   \<and> (\<forall>n. 0 \<le> example_random n \<and> example_random n < 1)
   \<and> (\<forall>f p b. position (applyForce example_engine f p b) = position b
               \<and> quaternion (applyForce example_engine f p b) = quaternion b)
   \<and> force (bodies (animate_dream example_engine example_random (quiet_frame 1 1)
        (dream_scene example_bodies [] [] [])) 1) = \<lparr>v_x = 1 / 40, v_y = - (1 / 40), v_z = 1 / 40\<rparr>
   \<and> mesh_position (meshes (animate_dream example_engine example_random (quiet_frame 1 1)
        (dream_scene example_bodies [] [] [])) 2) = \<lparr>v_x = 10, v_y = 2, v_z = 0\<rparr>"
proof -
  let ?d = "dream_scene example_bodies [] [] []"
  have h: "distinct (map fst (objectsToUpdate ?d))" "distinct (map snd (objectsToUpdate ?d))"
    "1 < length (objectsToUpdate ?d)" "\<forall>n. 0 \<le> example_random n \<and> example_random n < 1"
    "\<forall>f p b. position (applyForce example_engine f p b) = position b
               \<and> quaternion (applyForce example_engine f p b) = quaternion b"
    by (simp_all add: dream_scene_def example_random_def example_engine_def)
  from drift_applied_and_pose_copied_one_way [OF h, of "quiet_frame 1 1"] h show ?thesis
    unfolding Let_def
    by (simp add: dream_scene_def example_engine_def example_bodies_def body_at_def
        example_random_def quiet_frame_def vadd_def cross_def)
qed

text \<open>
  C8.  The claim has the drift force applied at the body's center.  The script passes
  the body's own position as the point of application, and the engine takes that point
  relative to the centre of mass: the force acts at the offset \<open>position\<close> from the
  centre, not at the centre.  In the first frame of the scene the first pane, at
  \<open>(10, 0, 0)\<close>, with the samples 0.25, 0.75 and 0.25 of \<open>Math.random()\<close>, receives the
  force \<open>(-0.025, 0.025, -0.025)\<close> and with it the torque \<open>(0, 0.25, 0.25)\<close>; a force
  through the centre has no torque.
\<close>

theorem drift_force_is_off_centre:
  "position (bodies (dream_scene example_bodies [] [] []) 0) = \<lparr>v_x = 10, v_y = 0, v_z = 0\<rparr>
   \<and> force (bodies (animate_dream example_engine example_random (quiet_frame 0 0)
      (dream_scene example_bodies [] [] [])) 0) = \<lparr>v_x = - (1 / 40), v_y = 1 / 40, v_z = - (1 / 40)\<rparr>
   \<and> torque (bodies (animate_dream example_engine example_random (quiet_frame 0 0)
      (dream_scene example_bodies [] [] [])) 0) = \<lparr>v_x = 0, v_y = 1 / 4, v_z = 1 / 4\<rparr>
   \<and> torque (bodies (animate_dream example_engine example_random (quiet_frame 0 0)
      (dream_scene example_bodies [] [] [])) 0) \<noteq> \<lparr>v_x = 0, v_y = 0, v_z = 0\<rparr>"
proof -
  let ?d = "dream_scene example_bodies [] [] []"
  have otu: "objectsToUpdate ?d = [(1, 0), (2, 1), (3, 2)]" by (simp add: dream_scene_def)
  have d: "distinct (map snd (objectsToUpdate
      (?d\<lparr>bodies := world_step example_engine (1 / 60) (deltaTime (quiet_frame 0 0)) 3 (bodies ?d)\<rparr>)))"
    "0 < length (objectsToUpdate
      (?d\<lparr>bodies := world_step example_engine (1 / 60) (deltaTime (quiet_frame 0 0)) 3 (bodies ?d)\<rparr>))"
    by (simp_all add: otu)
  have "bodies (animate_dream example_engine example_random (quiet_frame 0 0) ?d) 0 =
      applyForce example_engine (drift_force example_random 0)
        (position (world_step example_engine (1 / 60) 0 3 example_bodies 0))
        (world_step example_engine (1 / 60) 0 3 example_bodies 0)"
    using fold_drift_nth [OF d, of example_engine example_random]
    by (simp add: animate_dream_bodies otu dream_scene_def quiet_frame_def)
  then show ?thesis
    by (simp add: example_engine_def example_bodies_def body_at_def drift_force_def
        example_random_def vadd_def cross_def dream_scene_def)
qed

section \<open>Claims about the hover glow\<close>

text \<open>
  C9 (amended).  For a child of the scene named \<open>photography\<close>, every frame starts a
  tween of one second, with the default ease, from the current glow intensity towards
  0.7 if the pointer ray meets the object (and the object is interactive) and towards
  0 otherwise; the tween leaves the intensity where it is at the time of the frame and
  interpolates during the following second.  Over any run of frames during which the
  pointer stays on the object, or stays off it, and for an easing curve with values in
  \<open>[0, 1]\<close>: after the run the tween in force is the one started by the latest frame,
  towards the target of the run; from the latest frame on, the intensity lies between
  the intensity at the first frame of the run and the target, so no frame moves it away
  from the target or past it; and it equals the target from one second after the
  latest frame on.  Neither the camera transition nor a click has any influence on it.
  The second is counted from the latest frame, not from the moment the pointer came on
  or went off.
\<close>

theorem hover_glow_eased_towards_target:
  assumes "distinct (children s)" and "c \<in> set (children s)" and "obj_name s c = ''photography''"
    and "\<forall>p. 0 < p \<and> p < 1 \<longrightarrow> 0 \<le> curve DefaultEase p \<and> curve DefaultEase p \<le> 1"
    and "\<forall>g \<in> set (f # fs). (pointer_hits g c \<noteq> []) = on"
  shows "let target = (if c \<in> set (interactiveObjects s) \<and> on then 0.7 else 0);
             before = tween_at curve (emissiveIntensity s c) (elapsedTime f);
             glow = emissiveIntensity (animate curve f s) c;
             later = emissiveIntensity (run curve (f # fs) s) c;
             latest = elapsedTime (last (f # fs))
         in glow = gsap_to curve (elapsedTime f) (emissiveIntensity s c) target 1 DefaultEase
            \<and> tween_at curve glow (elapsedTime f) = before
            \<and> (\<forall>time. elapsedTime f < time \<and> time < elapsedTime f + 1 \<longrightarrow>
                  tween_at curve glow time = lerp before target (curve DefaultEase (time - elapsedTime f)))
            \<and> tw_to later = target \<and> tw_start later = latest \<and> tw_duration later = 1
            \<and> tw_ease later = DefaultEase
            \<and> (\<forall>time. latest \<le> time \<longrightarrow>
                  min before target \<le> tween_at curve later time
                  \<and> tween_at curve later time \<le> max before target)
            \<and> (\<forall>time. latest + 1 \<le> time \<longrightarrow> tween_at curve later time = target)
            \<and> (\<forall>tw. emissiveIntensity (run curve (f # fs) (s\<lparr>controls_target := tw\<rparr>)) c = later)
            \<and> emissiveIntensity (case click curve now hits s of Done s' \<Rightarrow> s' | TypeError s' \<Rightarrow> s') c
                = emissiveIntensity s c"
proof -
  define target :: real where "target = (if c \<in> set (interactiveObjects s) \<and> on then 0.7 else 0)"
  define before where "before = tween_at curve (emissiveIntensity s c) (elapsedTime f)"
  define later where "later = emissiveIntensity (run curve (f # fs) s) c"
  define latest where "latest = elapsedTime (last (f # fs))"
  have first: "(pointer_hits f c \<noteq> []) = on" using assms(5) by simp
  have glow: "emissiveIntensity (animate curve f s) c =
      gsap_to curve (elapsedTime f) (emissiveIntensity s c) target 1 DefaultEase"
    unfolding animate_glow [OF assms(1-3)] target_def using first by simp
  have g0: "tween_at curve (gsap_to curve (elapsedTime f) (emissiveIntensity s c) target 1 DefaultEase)
      (elapsedTime f) = before"
    unfolding before_def by (simp add: tween_at_gsap_to_start)
  have g1: "\<forall>time. elapsedTime f < time \<and> time < elapsedTime f + 1 \<longrightarrow>
      tween_at curve (gsap_to curve (elapsedTime f) (emissiveIntensity s c) target 1 DefaultEase) time
        = lerp before target (curve DefaultEase (time - elapsedTime f))"
    unfolding before_def by (simp add: tween_at_def gsap_to_def)
  from run_glow_steady [of s c curve f fs on target, OF assms(1-5) target_def] obtain v where
    L: "later = \<lparr>tw_from = v, tw_to = target, tw_start = latest, tw_duration = 1, tw_ease = DefaultEase\<rparr>"
    and v: "min before target \<le> v \<and> v \<le> max before target"
    unfolding later_def latest_def before_def by blast
  have sel: "tw_to later = target" "tw_start later = latest" "tw_duration later = 1"
    "tw_ease later = DefaultEase" "tw_from later = v"
    unfolding L by simp_all
  have ease: "\<forall>p. 0 < p \<and> p < 1 \<longrightarrow> 0 \<le> curve (tw_ease later) p \<and> curve (tw_ease later) p \<le> 1"
    unfolding sel using assms(4) .
  have btw: "min before target \<le> tween_at curve later time
      \<and> tween_at curve later time \<le> max before target" for time
  proof -
    have "min v target \<le> tween_at curve later time \<and> tween_at curve later time \<le> max v target"
      using tween_at_between [of curve later time, OF ease] unfolding sel .
    from between_trans [OF v this] show ?thesis .
  qed
  have reach: "tween_at curve later time = target" if "latest + 1 \<le> time" for time
    using that by (simp add: tween_at_def sel)
  have indep: "emissiveIntensity (run curve (f # fs) (s\<lparr>controls_target := tw\<rparr>)) c = later" for tw
    unfolding later_def by (rule run_glow_independent [OF assms(1-3)])
  have clk: "emissiveIntensity (case click curve now hits s of Done s' \<Rightarrow> s' | TypeError s' \<Rightarrow> s') c
      = emissiveIntensity s c"
    by (simp only: click_glow_untouched)
  have "emissiveIntensity (animate curve f s) c =
          gsap_to curve (elapsedTime f) (emissiveIntensity s c) target 1 DefaultEase
        \<and> tween_at curve (emissiveIntensity (animate curve f s) c) (elapsedTime f) = before
        \<and> (\<forall>time. elapsedTime f < time \<and> time < elapsedTime f + 1 \<longrightarrow>
              tween_at curve (emissiveIntensity (animate curve f s) c) time
                = lerp before target (curve DefaultEase (time - elapsedTime f)))
        \<and> tw_to later = target \<and> tw_start later = latest \<and> tw_duration later = 1
        \<and> tw_ease later = DefaultEase
        \<and> (\<forall>time. latest \<le> time \<longrightarrow>
              min before target \<le> tween_at curve later time
              \<and> tween_at curve later time \<le> max before target)
        \<and> (\<forall>time. latest + 1 \<le> time \<longrightarrow> tween_at curve later time = target)
        \<and> (\<forall>tw. emissiveIntensity (run curve (f # fs) (s\<lparr>controls_target := tw\<rparr>)) c = later)
        \<and> emissiveIntensity (case click curve now hits s of Done s' \<Rightarrow> s' | TypeError s' \<Rightarrow> s') c
            = emissiveIntensity s c"
    unfolding glow using g0 g1 sel(1-4) btw reach indep clk by blast
  then show ?thesis
    unfolding Let_def target_def before_def later_def latest_def .
qed

text \<open>
  An instance: two frames one second apart with the pointer on the first tablet, and
  one frame with the pointer off it.
\<close>

theorem hover_glow_witness:
  "distinct (children (main_scene [] [] [] [])) \<and> 5 \<in> set (children (main_scene [] [] [] []))
   \<and> obj_name (main_scene [] [] [] []) 5 = ''photography''
   \<and> pointer_hits (pointed_frame 5 [12] 1 0) 5 \<noteq> [] \<and> pointer_hits (pointed_frame 5 [12] 1 1) 5 \<noteq> []
   \<and> 0 \<le> tween_at gsap_curve (emissiveIntensity
        (run gsap_curve [pointed_frame 5 [12] 1 0, pointed_frame 5 [12] 1 1] (main_scene [] [] [] [])) 5) (3 / 2)
   \<and> tween_at gsap_curve (emissiveIntensity
        (run gsap_curve [pointed_frame 5 [12] 1 0, pointed_frame 5 [12] 1 1] (main_scene [] [] [] [])) 5) (3 / 2) \<le> 0.7
   \<and> tween_at gsap_curve (emissiveIntensity
        (run gsap_curve [pointed_frame 5 [12] 1 0, pointed_frame 5 [12] 1 1] (main_scene [] [] [] [])) 5) 2 = 0.7
   \<and> pointer_hits (quiet_frame 1 0) 5 = []
   \<and> tween_at gsap_curve (emissiveIntensity (run gsap_curve [quiet_frame 1 0] (main_scene [] [] [] [])) 5) 1 = 0"
proof -
  let ?s = "main_scene [] [] [] []"
  let ?f0 = "pointed_frame 5 [12] 1 0"
  let ?f1 = "pointed_frame 5 [12] 1 1"
  let ?later = "emissiveIntensity (run gsap_curve [?f0, ?f1] ?s) 5"
  have h: "distinct (children ?s)" "5 \<in> set (children ?s)" "obj_name ?s 5 = ''photography''"
    by (simp_all add: main_scene_def main_names_def)
  have p: "pointer_hits ?f0 5 \<noteq> []" "pointer_hits ?f1 5 \<noteq> []" "pointer_hits (quiet_frame 1 0) 5 = []"
    by (simp_all add: pointed_frame_def only_hit_def quiet_frame_def)
  have on: "\<forall>g \<in> set [?f0, ?f1]. (pointer_hits g 5 \<noteq> []) = True" using p by simp
  have off: "\<forall>g \<in> set [quiet_frame 1 0]. (pointer_hits g 5 \<noteq> []) = False" using p by simp
  have io: "5 \<in> set (interactiveObjects ?s) \<and> True" by (simp add: main_scene_def)
  have nio: "\<not> (5 \<in> set (interactiveObjects ?s) \<and> False)" by simp
  have before: "tween_at gsap_curve (emissiveIntensity ?s 5) t = 0" for t
    by (simp add: main_scene_def tween_at_def still_def)
  have t1: "elapsedTime (last [?f0, ?f1]) \<le> 3 / 2" and t2: "elapsedTime (last [?f0, ?f1]) + 1 \<le> 2"
    and t3: "elapsedTime (last [quiet_frame 1 0]) + 1 \<le> 1"
    by (simp_all add: pointed_frame_def quiet_frame_def)
  note held = hover_glow_eased_towards_target
    [where s = ?s and c = 5 and curve = gsap_curve and f = ?f0 and fs = "[?f1]" and on = True,
     OF h gsap_default_ease_bounds on, unfolded Let_def if_P [OF io] before]
  note left = hover_glow_eased_towards_target
    [where s = ?s and c = 5 and curve = gsap_curve and f = "quiet_frame 1 0" and fs = "[]" and on = False,
     OF h gsap_default_ease_bounds off, unfolded Let_def if_not_P [OF nio]]
  have a: "min 0 0.7 \<le> tween_at gsap_curve ?later (3 / 2) \<and> tween_at gsap_curve ?later (3 / 2) \<le> max 0 0.7"
    using held t1 by blast
  have m: "min (0::real) 0.7 = 0" "max (0::real) 0.7 = 0.7" by simp_all
  have b: "tween_at gsap_curve ?later 2 = 0.7" using held t2 by blast
  have c: "tween_at gsap_curve (emissiveIntensity (run gsap_curve [quiet_frame 1 0] ?s) 5) 1 = 0"
    using left t3 by blast
  from h p a [unfolded m] b c show ?thesis by blast
qed

text \<open>
  C9 as stated fails, in both directions: the frames replace the tween before it ends.
  With the pointer held on the first tablet from time 0 on and frames 1/60 s apart, the
  intensity at time 1 is not 0.7; with the pointer on the tablet for the frame at time
  0 and off it for the frames from 1/60 on, the intensity at time 61/60, one second
  after the pointer went off, is not 0.
\<close>

theorem glow_off_target_after_one_second:
  "tween_at gsap_curve (emissiveIntensity
      (run gsap_curve (steady_frames 5 [12] 0 (1 / 60) 61) (main_scene [] [] [] [])) 5) 1 \<noteq> 0.7
   \<and> tween_at gsap_curve (emissiveIntensity
      (run gsap_curve (steady_frames 5 [] (1 / 60) (1 / 60) 61)
        (run gsap_curve [pointed_frame 5 [12] (1 / 60) 0] (main_scene [] [] [] []))) 5) (61 / 60) \<noteq> 0"
proof -
  let ?s = "main_scene [] [] [] []"
  let ?s1 = "run gsap_curve [pointed_frame 5 [12] (1 / 60) 0] ?s"
  have reg: "distinct (children ?s)" "5 \<in> set (children ?s)" "obj_name ?s 5 = ''photography''"
    by (simp_all add: main_scene_def main_names_def)
  have reg1: "distinct (children ?s1)" "5 \<in> set (children ?s1)" "obj_name ?s1 5 = ''photography''"
    using reg by (simp_all add: run_registry)
  have curve: "gsap_curve DefaultEase (1 / 60) \<noteq> 1" by (simp add: gsap_curve_def)
  have dt: "(0::real) < 1 / 60" "(1::real) / 60 < 1" by simp_all
  have "Suc 60 = 61" by simp
  note frames = this [symmetric]
  have on_target: "(7 / 10 :: real) = (if 5 \<in> set (interactiveObjects ?s) \<and> [12::real] \<noteq> [] then 0.7 else 0)"
    by (simp add: main_scene_def)
  have on_start: "tween_at gsap_curve (emissiveIntensity ?s 5) 0 \<noteq> 7 / 10"
    by (simp add: main_scene_def tween_at_def still_def)
  from glow_stays_off_target [of ?s 5 "7 / 10" "[12]" gsap_curve 0 "1 / 60" 60, OF reg on_target on_start dt curve]
  obtain v where
    G: "emissiveIntensity (run gsap_curve (steady_frames 5 [12] 0 (1 / 60) 61) ?s) 5 =
          \<lparr>tw_from = v, tw_to = 7 / 10, tw_start = 0 + real 60 * (1 / 60), tw_duration = 1, tw_ease = DefaultEase\<rparr>"
    and v: "v \<noteq> 7 / 10" unfolding frames by blast
  have a: "tween_at gsap_curve (emissiveIntensity (run gsap_curve (steady_frames 5 [12] 0 (1 / 60) 61) ?s) 5) 1 \<noteq> 7 / 10"
    unfolding G using v by (simp add: tween_at_def)
  have io: "5 \<in> set (interactiveObjects ?s)" by (simp add: main_scene_def)
  have "emissiveIntensity ?s1 5 = emissiveIntensity (animate gsap_curve (pointed_frame 5 [12] (1 / 60) 0) ?s) 5"
    by (simp add: run_def)
  also have "\<dots> = gsap_to gsap_curve (elapsedTime (pointed_frame 5 [12] (1 / 60) 0)) (emissiveIntensity ?s 5)
      (if 5 \<in> set (interactiveObjects ?s) \<and> pointer_hits (pointed_frame 5 [12] (1 / 60) 0) 5 \<noteq> [] then 0.7 else 0)
      1 DefaultEase"
    by (rule animate_glow [OF reg])
  also have "\<dots> = gsap_to gsap_curve 0 (emissiveIntensity ?s 5) 0.7 1 DefaultEase"
    using io by (simp add: pointed_frame_simps)
  finally have glow1: "emissiveIntensity ?s1 5 =
      gsap_to gsap_curve 0 (emissiveIntensity ?s 5) 0.7 1 DefaultEase" .
  have off_target: "(0 :: real) = (if 5 \<in> set (interactiveObjects ?s1) \<and> ([]::real list) \<noteq> [] then 0.7 else 0)"
    by simp
  have off_start: "tween_at gsap_curve (emissiveIntensity ?s1 5) (1 / 60) \<noteq> 0"
    unfolding glow1 by (simp add: gsap_to_def tween_at_def lerp_def gsap_curve_def main_scene_def still_def power2_eq_square)
  from glow_stays_off_target [of ?s1 5 0 "[]" gsap_curve "1 / 60" "1 / 60" 60, OF reg1 off_target off_start dt curve]
  obtain w where
    H: "emissiveIntensity (run gsap_curve (steady_frames 5 [] (1 / 60) (1 / 60) 61) ?s1) 5 =
          \<lparr>tw_from = w, tw_to = 0, tw_start = 1 / 60 + real 60 * (1 / 60), tw_duration = 1, tw_ease = DefaultEase\<rparr>"
    and w: "w \<noteq> 0" unfolding frames by blast
  have b: "tween_at gsap_curve (emissiveIntensity (run gsap_curve (steady_frames 5 [] (1 / 60) (1 / 60) 61) ?s1) 5) (61 / 60) \<noteq> 0"
    unfolding H using w by (simp add: tween_at_def)
  from a b show ?thesis by simp
qed

section \<open>Claims about what a frame leaves alone\<close>

text \<open>
  C10.  Over any sequence of frames, the components of the vent buffer with
  \<open>i mod 3 \<noteq> 1\<close> (x and z), the components of the swarm buffer with axis 2 (z), and the
  whole position buffer of the river of the dream scene keep the values they had at the
  start.
\<close>

theorem unwritten_components_keep_creation_values:
  "(i < length (codeVents_array s) \<and> i mod 3 \<noteq> 1 \<longrightarrow>
      codeVents_array (run curve fs s) ! i = codeVents_array s ! i)
   \<and> (j < length (swarm_array s) \<and> j mod 3 = 2 \<longrightarrow>
      swarm_array (run curve fs s) ! j = swarm_array s ! j)
   \<and> posArray (particleMesh (run_dream eng random gs d)) = posArray (particleMesh d)"
  by (simp add: run_vent_xz run_swarm_z run_dream_posArray)

text \<open>An instance: two frames on small buffers, one frame of the dream scene.\<close>

theorem unwritten_components_witness:
  "(0 < length (codeVents_array (main_scene [1, 2, 3] [4, 5, 6] [] [])) \<and> (0::nat) mod 3 \<noteq> 1)
   \<and> codeVents_array (run gsap_curve [quiet_frame 1 1, quiet_frame 1 2] (main_scene [1, 2, 3] [4, 5, 6] [] [])) ! 0 = 1
   \<and> (2 < length (swarm_array (main_scene [1, 2, 3] [4, 5, 6] [] [])) \<and> (2::nat) mod 3 = 2)
   \<and> swarm_array (run gsap_curve [quiet_frame 1 1, quiet_frame 1 2] (main_scene [1, 2, 3] [4, 5, 6] [] [])) ! 2 = 6
   \<and> posArray (particleMesh (run_dream example_engine example_random [quiet_frame 1 1]
        (dream_scene example_bodies [7, 8, 9] [] []))) = [7, 8, 9]"
  using unwritten_components_keep_creation_values
    [of 0 "main_scene [1, 2, 3] [4, 5, 6] [] []" gsap_curve "[quiet_frame 1 1, quiet_frame 1 2]" 2
        example_engine example_random "[quiet_frame 1 1]" "dream_scene example_bodies [7, 8, 9] [] []"]
  by (simp add: main_scene_def dream_scene_def)


end
